theory Spec2Isabelle
  imports Complex_Main "HOL-Library.AList"
begin

section \<open>JavaScript values and errors\<close>

text \<open>
  Exceptions are values. \<open>Error msg\<close> is \<^verbatim>\<open>new Error(msg)\<close>, \<open>IDBError\<close> is whatever
  IndexedDB rejects with (GenericStringStorage rethrows it unchanged from \<^verbatim>\<open>set\<close> and
  \<^verbatim>\<open>delete\<close>), \<open>SyntaxError\<close> is what \<^verbatim>\<open>JSON.parse\<close> throws.
\<close>

datatype js_error = Error string | IDBError | SyntaxError

section \<open>GenericStringStorage (src/fhevm/GenericStringStorage.ts)\<close>

text \<open>
  The cache entry \<^verbatim>\<open>{ publicKey: string; timestamp: number }\<close>. Timestamps are the
  millisecond counts of \<^verbatim>\<open>Date.now()\<close>, integers.
\<close>

record cache_entry =
  publicKey :: string
  timestamp :: int

text \<open>
  The object store holds strings. PublicKeyStorage only ever writes
  \<^verbatim>\<open>JSON.stringify(table)\<close> and reads with \<^verbatim>\<open>JSON.parse\<close>, so a stored string is
  kept as what \<^verbatim>\<open>JSON.parse\<close> makes of it: the table it denotes (keys in insertion
  order, as a JavaScript object enumerates them), or a text that \<^verbatim>\<open>JSON.parse\<close> rejects.
\<close>

type_synonym cache_table = "(string \<times> cache_entry) list"

datatype stored_text = JsonTable cache_table | NotJson string

text \<open>
  The IndexedDB database behind one storage name. \<open>faults\<close> is the outcome of the
  IndexedDB operations to come, in order: \<open>True\<close> means the operation (opening the
  database or the request itself) rejects. An empty list means no further failure.
\<close>

record db_state =
  keyValueStore :: "(string \<times> stored_text) list"
  faults :: "bool list"

definition next_fault :: "db_state \<Rightarrow> bool \<times> db_state" where
  "next_fault db =
     (case faults db of
        [] \<Rightarrow> (False, db)
      | f # fs \<Rightarrow> (f, db\<lparr>faults := fs\<rparr>))"

text \<open>\<^verbatim>\<open>value || null\<close>: the empty string is falsy.\<close>

definition falsy_text :: "stored_text \<Rightarrow> bool" where
  "falsy_text v = (v = NotJson [])"

text \<open>\<^verbatim>\<open>get\<close> catches every failure, warns and returns \<^verbatim>\<open>null\<close>.\<close>

definition storage_get :: "string \<Rightarrow> db_state \<Rightarrow> db_state \<times> stored_text option" where
  "storage_get key db =
     (case next_fault db of
        (True, db') \<Rightarrow> (db', None)
      | (False, db') \<Rightarrow>
          (db', case map_of (keyValueStore db') key of
                  None \<Rightarrow> None
                | Some v \<Rightarrow> if falsy_text v then None else Some v))"

text \<open>\<^verbatim>\<open>set\<close> and \<^verbatim>\<open>delete\<close> log the failure and rethrow it.\<close>

definition storage_set :: "string \<Rightarrow> stored_text \<Rightarrow> db_state \<Rightarrow> db_state \<times> (js_error + unit)" where
  "storage_set key v db =
     (case next_fault db of
        (True, db') \<Rightarrow> (db', Inl IDBError)
      | (False, db') \<Rightarrow>
          (db'\<lparr>keyValueStore := AList.update key v (keyValueStore db')\<rparr>, Inr ()))"

definition storage_delete :: "string \<Rightarrow> db_state \<Rightarrow> db_state \<times> (js_error + unit)" where
  "storage_delete key db =
     (case next_fault db of
        (True, db') \<Rightarrow> (db', Inl IDBError)
      | (False, db') \<Rightarrow>
          (db'\<lparr>keyValueStore := AList.delete key (keyValueStore db')\<rparr>, Inr ()))"

definition JSON_parse :: "stored_text \<Rightarrow> js_error + cache_table" where
  "JSON_parse v = (case v of JsonTable t \<Rightarrow> Inr t | NotJson _ \<Rightarrow> Inl SyntaxError)"

section \<open>PublicKeyStorage (src/fhevm/internal/PublicKeyStorage.ts)\<close>

definition STORAGE_KEY :: string where
  "STORAGE_KEY = ''fhevm_public_keys''"

definition CACHE_DURATION :: int where
  "CACHE_DURATION = 24 * 60 * 60 * 1000"

text \<open>
  One PublicKeyStorage object: its own \<open>memoryCache\<close> (a Map, in insertion order) and
  the database it reaches through its GenericStringStorage.
\<close>

record pks_state =
  memoryCache :: cache_table
  storage :: db_state

text \<open>The decimal rendering of a chain id inside the template literal.\<close>

function string_of_nat :: "nat \<Rightarrow> string" where
  "string_of_nat n =
     (if n < 10 then [char_of (48 + n)]
      else string_of_nat (n div 10) @ [char_of (48 + n mod 10)])"
  by pat_completeness auto
termination
  by (relation "measure id") auto

declare string_of_nat.simps [simp del]

text \<open>\<^verbatim>\<open>`${chainId}_${kmsAddress || 'default'}`\<close>: an absent or empty address is falsy.\<close>

definition getCacheKey :: "nat \<Rightarrow> string option \<Rightarrow> string" where
  "getCacheKey chainId kmsAddress =
     string_of_nat chainId @ ''_'' @
       (case kmsAddress of
          None \<Rightarrow> ''default''
        | Some a \<Rightarrow> if a = [] then ''default'' else a)"

text \<open>
  \<^verbatim>\<open>(Date.now() - entry.timestamp) < CACHE_DURATION\<close>. The clock is the parameter
  \<open>now\<close>: the readings of \<^verbatim>\<open>Date.now()\<close> within one cache operation are taken to
  be one value.
\<close>

definition isValidCacheEntry :: "int \<Rightarrow> cache_entry \<Rightarrow> bool" where
  "isValidCacheEntry now entry = (now - timestamp entry < CACHE_DURATION)"

text \<open>
  \<^verbatim>\<open>getCachedPublicKey\<close>: the memory cache first; then the persistent table inside
  \<^verbatim>\<open>try\<close>, whose \<^verbatim>\<open>catch\<close> warns and falls through to \<^verbatim>\<open>return null\<close>.
\<close>

definition getCachedPublicKey ::
  "int \<Rightarrow> nat \<Rightarrow> string option \<Rightarrow> pks_state \<Rightarrow> pks_state \<times> (js_error + string option)" where
  "getCachedPublicKey now chainId kmsAddress st =
     (let cacheKey = getCacheKey chainId kmsAddress in
      case (case map_of (memoryCache st) cacheKey of
              None \<Rightarrow> None
            | Some m \<Rightarrow> if isValidCacheEntry now m then Some m else None) of
        Some memoryEntry \<Rightarrow> (st, Inr (Some (publicKey memoryEntry)))
      | None \<Rightarrow>
          (case storage_get STORAGE_KEY (storage st) of
             (db', storedData) \<Rightarrow>
               (let st' = st\<lparr>storage := db'\<rparr> in
                case storedData of
                  None \<Rightarrow> (st', Inr None)
                | Some text \<Rightarrow>
                    (case JSON_parse text of
                       Inl err \<Rightarrow> (st', Inr None)
                     | Inr parsedData \<Rightarrow>
                         (case map_of parsedData cacheKey of
                            None \<Rightarrow> (st', Inr None)
                          | Some entry \<Rightarrow>
                              if isValidCacheEntry now entry
                              then (st'\<lparr>memoryCache :=
                                          AList.update cacheKey entry (memoryCache st')\<rparr>,
                                    Inr (Some (publicKey entry)))
                              else (st', Inr None))))))"

text \<open>
  \<^verbatim>\<open>setCachedPublicKey\<close>: the memory cache is written first; the read-merge-write of
  the persistent table runs inside \<^verbatim>\<open>try\<close>, and the \<^verbatim>\<open>catch\<close> only warns.
\<close>

definition setCachedPublicKey ::
  "int \<Rightarrow> nat \<Rightarrow> string \<Rightarrow> string option \<Rightarrow> pks_state \<Rightarrow> pks_state \<times> (js_error + unit)" where
  "setCachedPublicKey now chainId pk kmsAddress st =
     (let cacheKey = getCacheKey chainId kmsAddress;
          entry = \<lparr>publicKey = pk, timestamp = now\<rparr>;
          st1 = st\<lparr>memoryCache := AList.update cacheKey entry (memoryCache st)\<rparr>
      in case storage_get STORAGE_KEY (storage st1) of
           (db1, existingData) \<Rightarrow>
             (case (case existingData of
                      None \<Rightarrow> Inr []
                    | Some text \<Rightarrow> JSON_parse text) of
                Inl err \<Rightarrow> (st1\<lparr>storage := db1\<rparr>, Inr ())
              | Inr storedData \<Rightarrow>
                  (case storage_set STORAGE_KEY
                          (JsonTable (AList.update cacheKey entry storedData)) db1 of
                     (db2, Inl err) \<Rightarrow> (st1\<lparr>storage := db2\<rparr>, Inr ())
                   | (db2, Inr u) \<Rightarrow> (st1\<lparr>storage := db2\<rparr>, Inr ()))))"

text \<open>
  \<^verbatim>\<open>cleanupExpiredEntries\<close>: returns at once when the read gives nothing (the memory
  cache is then left as it is); otherwise keeps the valid entries of the table, prunes the
  memory cache, and rewrites the table when either loop dropped something. All inside
  \<^verbatim>\<open>try\<close>; the \<^verbatim>\<open>catch\<close> warns.
\<close>

definition cleanupExpiredEntries :: "int \<Rightarrow> pks_state \<Rightarrow> pks_state \<times> (js_error + unit)" where
  "cleanupExpiredEntries now st =
     (case storage_get STORAGE_KEY (storage st) of
        (db1, storedData) \<Rightarrow>
          (case storedData of
             None \<Rightarrow> (st\<lparr>storage := db1\<rparr>, Inr ())
           | Some text \<Rightarrow>
               (case JSON_parse text of
                  Inl err \<Rightarrow> (st\<lparr>storage := db1\<rparr>, Inr ())
                | Inr parsedData \<Rightarrow>
                    (let cleanedData = filter (\<lambda>(k, e). isValidCacheEntry now e) parsedData;
                         memory' = filter (\<lambda>(k, e). isValidCacheEntry now e) (memoryCache st);
                         hasChanges =
                           (list_ex (\<lambda>(k, e). \<not> isValidCacheEntry now e) parsedData
                            \<or> list_ex (\<lambda>(k, e). \<not> isValidCacheEntry now e) (memoryCache st));
                         st1 = st\<lparr>memoryCache := memory', storage := db1\<rparr>
                     in if hasChanges
                        then (case storage_set STORAGE_KEY (JsonTable cleanedData) db1 of
                                (db2, Inl err) \<Rightarrow> (st1\<lparr>storage := db2\<rparr>, Inr ())
                              | (db2, Inr u) \<Rightarrow> (st1\<lparr>storage := db2\<rparr>, Inr ()))
                        else (st1, Inr ())))))"

text \<open>\<^verbatim>\<open>clearAll\<close>: no \<^verbatim>\<open>try\<close> around the delete, so its rejection is the caller's.\<close>

definition clearAll :: "pks_state \<Rightarrow> pks_state \<times> (js_error + unit)" where
  "clearAll st =
     (let st1 = st\<lparr>memoryCache := []\<rparr> in
      case storage_delete STORAGE_KEY (storage st1) of
        (db1, Inl err) \<Rightarrow> (st1\<lparr>storage := db1\<rparr>, Inl err)
      | (db1, Inr u) \<Rightarrow> (st1\<lparr>storage := db1\<rparr>, Inr ()))"

record cache_stats =
  memoryEntries :: nat
  persistentEntries :: nat
  validEntries :: nat
  expiredEntries :: nat

definition getCacheStats :: "int \<Rightarrow> pks_state \<Rightarrow> pks_state \<times> (js_error + cache_stats)" where
  "getCacheStats now st =
     (case storage_get STORAGE_KEY (storage st) of
        (db1, storedData) \<Rightarrow>
          (let st1 = st\<lparr>storage := db1\<rparr>;
               zero = \<lparr>memoryEntries = length (memoryCache st), persistentEntries = 0,
                       validEntries = 0, expiredEntries = 0\<rparr>
           in case storedData of
                None \<Rightarrow> (st1, Inr zero)
              | Some text \<Rightarrow>
                  (case JSON_parse text of
                     Inl err \<Rightarrow> (st1, Inr zero)
                   | Inr parsedData \<Rightarrow>
                       (st1, Inr \<lparr>memoryEntries = length (memoryCache st),
                                  persistentEntries = length parsedData,
                                  validEntries =
                                    length (filter (\<lambda>(k, e). isValidCacheEntry now e) parsedData),
                                  expiredEntries =
                                    length (filter (\<lambda>(k, e). \<not> isValidCacheEntry now e) parsedData)\<rparr>))))"

text \<open>
  Two readings of a state used to state properties: whether the \<open>n\<close>-th IndexedDB
  operation to come fails, and the text now stored under \<open>STORAGE_KEY\<close>.
\<close>

definition nth_fault :: "db_state \<Rightarrow> nat \<Rightarrow> bool" where
  "nth_fault db n = (n < length (faults db) \<and> faults db ! n)"

definition persisted :: "pks_state \<Rightarrow> stored_text option" where
  "persisted st = map_of (keyValueStore (storage st)) STORAGE_KEY"

section \<open>createFhevmInstance (src/fhevm/internal/PublicKeyStorage.ts, second module)\<close>

text \<open>
  A provider is an RPC URL or an object, compared by reference (\<open>ProviderObject n\<close> is
  the object with identity \<open>n\<close>). A string is wrapped into a new
  \<^verbatim>\<open>ethers.JsonRpcProvider\<close>.
\<close>

datatype provider = RpcUrl string | ProviderObject nat

datatype actual_provider = JsonRpcProvider string | Passed nat

text \<open>
  \<^verbatim>\<open>CreateFhevmInstanceOptions\<close> without \<^verbatim>\<open>signal\<close>, whose history is
  \<open>abort_at\<close> below, and without \<^verbatim>\<open>onStatusChange\<close>, which only receives progress
  texts.
\<close>

record options =
  o_chainId :: "nat option"
  o_publicKeyOrAddress :: "string option"
  o_kmsContractAddress :: "string option"
  o_aclContractAddress :: "string option"
  o_provider :: "provider option"
  o_mockChains :: "(nat \<times> string) list option"

text \<open>
  The three shapes of \<^verbatim>\<open>sdkConfig\<close>: the SDK's own Sepolia preset with the provider
  added; the mock shape \<^verbatim>\<open>{chainId, rpcUrl, provider, mockMode: true}\<close>; the default
  shape \<^verbatim>\<open>{chainId, provider, publicKey, kmsContractAddress, aclContractAddress}\<close>.
\<close>

datatype sdk_config =
    SepoliaShape "actual_provider option"
  | MockShape nat string "actual_provider option"
  | DefaultShape nat "actual_provider option" "string option" "string option" "string option"

text \<open>The \<^verbatim>\<open>chainId\<close> key that createFhevmInstance itself writes into the configuration.\<close>

fun config_chainId :: "sdk_config \<Rightarrow> nat option" where
  "config_chainId (SepoliaShape p) = None"
| "config_chainId (MockShape n url p) = Some n"
| "config_chainId (DefaultShape n p pk kms acl) = Some n"

text \<open>
  What \<^verbatim>\<open>relayerSDK.createInstance\<close> resolves to, as far as createFhevmInstance looks
  at it: whether it has a \<^verbatim>\<open>getPublicKey\<close> method and what that call settles to.
\<close>

record ext_instance =
  has_getPublicKey :: bool
  getPublicKey_result :: "string + string"

text \<open>
  Everything outside the function. The suspension points of one run are numbered:
  0 the call itself, 1 \<^verbatim>\<open>sdkLoader.load\<close>, 2 \<^verbatim>\<open>getNetwork\<close>,
  3 \<^verbatim>\<open>cleanupExpiredEntries\<close>, 4 \<^verbatim>\<open>getCachedPublicKey\<close>, 5 \<^verbatim>\<open>initSDK\<close>,
  6 \<^verbatim>\<open>createInstance\<close>, 7 \<^verbatim>\<open>getPublicKey\<close>, 8 \<^verbatim>\<open>setCachedPublicKey\<close>,
  9 the settling of the returned promise. \<open>abort_at = Some t\<close> says the signal is
  aborted while the run is suspended at point \<open>t\<close> (at 0: before the call); \<open>None\<close>
  says it never is. A rejecting external call carries its \<^verbatim>\<open>error.message\<close>.
\<close>

record world =
  abort_at :: "nat option"
  sdk_load :: "string option"
  window_relayerSDK :: bool
  getNetwork :: "string + nat"
  initSDK :: "sdk_config \<Rightarrow> string option"
  createInstance :: "sdk_config \<Rightarrow> string + ext_instance"
  clock :: "nat \<Rightarrow> int"

text \<open>\<^verbatim>\<open>signal?.aborted\<close> read after suspension point \<open>t\<close>.\<close>

definition aborted :: "world \<Rightarrow> nat \<Rightarrow> bool" where
  "aborted w t = (case abort_at w of None \<Rightarrow> False | Some a \<Rightarrow> a \<le> t)"

definition abortError :: js_error where
  "abortError = Error ''Operation was aborted''"

definition SEPOLIA_chainId :: nat where
  "SEPOLIA_chainId = 11155111"

definition DEFAULT_MOCK_CHAINS :: "(nat \<times> string) list" where
  "DEFAULT_MOCK_CHAINS = [(1337, ''http://localhost:8545''), (31337, ''http://localhost:8545'')]"

text \<open>Truthiness of an optional number and of an optional string.\<close>

definition truthy_num :: "nat option \<Rightarrow> bool" where
  "truthy_num c = (case c of None \<Rightarrow> False | Some n \<Rightarrow> n \<noteq> 0)"

definition truthy_str :: "string option \<Rightarrow> bool" where
  "truthy_str x = (case x of None \<Rightarrow> False | Some s \<Rightarrow> s \<noteq> [])"

definition resolveProvider :: "provider option \<Rightarrow> actual_provider option" where
  "resolveProvider p =
     (case p of
        None \<Rightarrow> None
      | Some (RpcUrl url) \<Rightarrow> Some (JsonRpcProvider url)
      | Some (ProviderObject n) \<Rightarrow> Some (Passed n))"

text \<open>
  \<^verbatim>\<open>if (!actualChainId && actualProvider) { try { ... getNetwork() ... } catch { warn } }\<close>
\<close>

definition detectChainId :: "options \<Rightarrow> world \<Rightarrow> nat option" where
  "detectChainId opts w =
     (if \<not> truthy_num (o_chainId opts) \<and> resolveProvider (o_provider opts) \<noteq> None
      then (case getNetwork w of
              Inl err \<Rightarrow> o_chainId opts
            | Inr n \<Rightarrow> Some n)
      else o_chainId opts)"

text \<open>\<^verbatim>\<open>if (!publicKey && actualChainId) publicKey = await getCachedPublicKey(...)\<close>\<close>

definition lookupPublicKey ::
  "options \<Rightarrow> world \<Rightarrow> nat option \<Rightarrow> pks_state \<Rightarrow> pks_state \<times> (js_error + string option)" where
  "lookupPublicKey opts w actualChainId pks =
     (case actualChainId of
        None \<Rightarrow> (pks, Inr (o_publicKeyOrAddress opts))
      | Some n \<Rightarrow>
          if \<not> truthy_str (o_publicKeyOrAddress opts) \<and> n \<noteq> 0
          then getCachedPublicKey (clock w 4) n (o_kmsContractAddress opts) pks
          else (pks, Inr (o_publicKeyOrAddress opts)))"

definition selectConfig ::
  "options \<Rightarrow> nat option \<Rightarrow> actual_provider option \<Rightarrow> string option \<Rightarrow> sdk_config" where
  "selectConfig opts actualChainId actualProvider pk =
     (let mockChains = (case o_mockChains opts of None \<Rightarrow> DEFAULT_MOCK_CHAINS | Some m \<Rightarrow> m) in
      if actualChainId = Some SEPOLIA_chainId then SepoliaShape actualProvider
      else case (case actualChainId of
                   None \<Rightarrow> None
                 | Some n \<Rightarrow>
                     if n = 0 then None
                     else (case map_of mockChains n of
                             None \<Rightarrow> None
                           | Some url \<Rightarrow> if url = [] then None else Some (n, url))) of
             Some (n, url) \<Rightarrow> MockShape n url actualProvider
           | None \<Rightarrow>
               DefaultShape
                 (case actualChainId of None \<Rightarrow> 1337 | Some n \<Rightarrow> if n = 0 then 1337 else n)
                 actualProvider pk (o_kmsContractAddress opts) (o_aclContractAddress opts))"

text \<open>
  The last block: \<^verbatim>\<open>if (actualChainId && fhevmInstance.getPublicKey) { try { ... } catch { warn } }\<close>.
  No read of the signal stands between the \<^verbatim>\<open>await getPublicKey()\<close> and the write.
\<close>

definition retrievePublicKey ::
  "options \<Rightarrow> world \<Rightarrow> nat option \<Rightarrow> string option \<Rightarrow> ext_instance \<Rightarrow> pks_state \<Rightarrow> pks_state" where
  "retrievePublicKey opts w actualChainId pk inst pks =
     (case actualChainId of
        None \<Rightarrow> pks
      | Some n \<Rightarrow>
          if n \<noteq> 0 \<and> has_getPublicKey inst
          then (case getPublicKey_result inst of
                  Inl err \<Rightarrow> pks
                | Inr retrievedPublicKey \<Rightarrow>
                    if retrievedPublicKey \<noteq> [] \<and> Some retrievedPublicKey \<noteq> pk
                    then fst (setCachedPublicKey (clock w 8) n retrievedPublicKey
                                (o_kmsContractAddress opts) pks)
                    else pks)
          else pks)"

text \<open>
  The wrapped instance: the external instance and what the added closures captured.
\<close>

record fhevm_instance =
  wrapped :: ext_instance
  actualChainId_of :: "nat option"
  mockChains_of :: "(nat \<times> string) list"

text \<open>
  One run: the database as the run leaves it, the configuration handed to the SDK (if
  the run got that far), and how the returned promise settles.
\<close>

record run_result =
  db_after :: db_state
  handed_config :: "sdk_config option"
  outcome :: "js_error + fhevm_instance"

definition createFhevmInstance :: "options \<Rightarrow> world \<Rightarrow> db_state \<Rightarrow> run_result" where
  "createFhevmInstance opts w db =
     (if aborted w 0
      then \<lparr>db_after = db, handed_config = None, outcome = Inl abortError\<rparr>
      else case sdk_load w of
        Some msg \<Rightarrow>
          \<lparr>db_after = db, handed_config = None,
           outcome = Inl (Error (''Failed to load FHEVM Relayer SDK: '' @ msg))\<rparr>
      | None \<Rightarrow>
      if aborted w 1
      then \<lparr>db_after = db, handed_config = None, outcome = Inl abortError\<rparr>
      else if \<not> window_relayerSDK w
      then \<lparr>db_after = db, handed_config = None,
            outcome = Inl (Error ''Relayer SDK not available on window object'')\<rparr>
      else
        let actualProvider = resolveProvider (o_provider opts);
            actualChainId = detectChainId opts w
        in
        if aborted w 2
        then \<lparr>db_after = db, handed_config = None, outcome = Inl abortError\<rparr>
        else
          case cleanupExpiredEntries (clock w 3) \<lparr>memoryCache = [], storage = db\<rparr> of
            (pks1, Inl err) \<Rightarrow>
              \<lparr>db_after = storage pks1, handed_config = None, outcome = Inl err\<rparr>
          | (pks1, Inr u) \<Rightarrow>
          case lookupPublicKey opts w actualChainId pks1 of
            (pks2, Inl err) \<Rightarrow>
              \<lparr>db_after = storage pks2, handed_config = None, outcome = Inl err\<rparr>
          | (pks2, Inr pk) \<Rightarrow>
          let sdkConfig = selectConfig opts actualChainId actualProvider pk in
          if aborted w 4
          then \<lparr>db_after = storage pks2, handed_config = None, outcome = Inl abortError\<rparr>
          else case initSDK w sdkConfig of
            Some msg \<Rightarrow>
              \<lparr>db_after = storage pks2, handed_config = Some sdkConfig,
               outcome = Inl (Error (''Failed to initialize FHEVM SDK: '' @ msg))\<rparr>
          | None \<Rightarrow>
          if aborted w 5
          then \<lparr>db_after = storage pks2, handed_config = Some sdkConfig, outcome = Inl abortError\<rparr>
          else case createInstance w sdkConfig of
            Inl msg \<Rightarrow>
              \<lparr>db_after = storage pks2, handed_config = Some sdkConfig,
               outcome = Inl (Error (''Failed to create FHEVM instance: '' @ msg))\<rparr>
          | Inr fhevmInstance \<Rightarrow>
          if aborted w 6
          then \<lparr>db_after = storage pks2, handed_config = Some sdkConfig, outcome = Inl abortError\<rparr>
          else
            let pks3 = retrievePublicKey opts w actualChainId pk fhevmInstance pks2 in
            \<lparr>db_after = storage pks3, handed_config = Some sdkConfig,
             outcome = Inr \<lparr>wrapped = fhevmInstance, actualChainId_of = actualChainId,
                           mockChains_of = (case o_mockChains opts of
                                              None \<Rightarrow> DEFAULT_MOCK_CHAINS | Some m \<Rightarrow> m)\<rparr>\<rparr>)"

subsection \<open>The wrapped instance's methods\<close>

definition getChainId :: "fhevm_instance \<Rightarrow> nat option" where
  "getChainId inst = actualChainId_of inst"

definition isSepoliaNetwork :: "fhevm_instance \<Rightarrow> bool" where
  "isSepoliaNetwork inst = (actualChainId_of inst = Some SEPOLIA_chainId)"

definition isMockNetwork :: "fhevm_instance \<Rightarrow> bool" where
  "isMockNetwork inst =
     (case actualChainId_of inst of
        None \<Rightarrow> False
      | Some n \<Rightarrow>
          if n = 0 then False
          else (case map_of (mockChains_of inst) n of None \<Rightarrow> False | Some url \<Rightarrow> url \<noteq> []))"

text \<open>
  JavaScript values as the runtime checks see them. A number is a double: a rational,
  NaN or an infinity; \<^verbatim>\<open>Number.isInteger\<close> and the comparisons are exact on those.
\<close>

datatype js_number = Finite rat | NaN | PosInfinity | NegInfinity

datatype js_value =
    JSNumber js_number
  | JSBigInt int
  | JSBoolean bool
  | JSString string
  | JSUndefined
  | JSNull
  | JSObject nat

fun Number_isInteger :: "js_number \<Rightarrow> bool" where
  "Number_isInteger (Finite q) = (of_int \<lfloor>q\<rfloor> = q)"
| "Number_isInteger NaN = False"
| "Number_isInteger PosInfinity = False"
| "Number_isInteger NegInfinity = False"

text \<open>
  A call made on the external instance; the wrapper returns whatever that call returns.
\<close>

datatype ext_call = Ext_encrypt32 rat | Ext_encrypt64 int | Ext_encryptBool bool

fun encrypt32 :: "js_value \<Rightarrow> js_error + ext_call" where
  "encrypt32 (JSNumber n) =
     (if \<not> Number_isInteger n then Inl (Error ''encrypt32 requires an integer value'')
      else (case n of
              Finite q \<Rightarrow>
                if q < 0 \<or> q > 4294967295
                then Inl (Error ''encrypt32 value must be between 0 and 2^32-1'')
                else Inr (Ext_encrypt32 q)
            | _ \<Rightarrow> Inl (Error ''encrypt32 requires an integer value'')))"
| "encrypt32 v = Inl (Error ''encrypt32 requires an integer value'')"

fun encrypt64 :: "js_value \<Rightarrow> js_error + ext_call" where
  "encrypt64 (JSBigInt b) =
     (if b < 0 \<or> b > 18446744073709551615
      then Inl (Error ''encrypt64 value must be between 0 and 2^64-1'')
      else Inr (Ext_encrypt64 b))"
| "encrypt64 v = Inl (Error ''encrypt64 requires a bigint value'')"

fun encryptBool :: "js_value \<Rightarrow> js_error + ext_call" where
  "encryptBool (JSBoolean b) = Inr (Ext_encryptBool b)"
| "encryptBool v = Inl (Error ''encryptBool requires a boolean value'')"

section \<open>useFhevm (src/unnamed/part_000)\<close>

datatype go_state = Idle | Loading | Ready | ErrorState

text \<open>
  What one call of createFhevmInstance captured in the closures of its \<^verbatim>\<open>then\<close> and
  \<^verbatim>\<open>catch\<close>: the signal (the index of its AbortController), the provider, the chain id
  and the mock chains.
\<close>

record attempt =
  thisSignal :: nat
  thisProvider :: provider
  thisChainId :: "nat option"
  thisRpcUrlsByChainId :: "(nat \<times> string) list option"

text \<open>
  The state of one mounted hook: the five \<^verbatim>\<open>useState\<close> cells, the four refs, the
  AbortControllers created so far (\<open>controllers ! i\<close> is \<^verbatim>\<open>signal.aborted\<close> of the
  \<open>i\<close>-th), and the calls of createFhevmInstance started so far, whose promises settle
  later.
\<close>

record hook_state =
  st_instance :: "fhevm_instance option"
  st_status :: go_state
  st_error :: "js_error option"
  isRunning :: bool
  providerChanged :: nat
  abortControllerRef :: "nat option"
  providerRef :: "provider option"
  chainIdRef :: "nat option"
  mockChainsRef :: "(nat \<times> string) list option"
  controllers :: "bool list"
  started :: "attempt list"

definition mount ::
  "provider option \<Rightarrow> nat option \<Rightarrow> (nat \<times> string) list option \<Rightarrow> bool \<Rightarrow> hook_state" where
  "mount p c mocks enabled =
     \<lparr>st_instance = None, st_status = Idle, st_error = None, isRunning = enabled,
      providerChanged = 0, abortControllerRef = None, providerRef = p, chainIdRef = c,
      mockChainsRef = mocks, controllers = [], started = []\<rparr>"

definition assertionError :: "string \<Rightarrow> js_error" where
  "assertionError message = Error (''Assertion failed: '' @ message)"

text \<open>\<^verbatim>\<open>controller.abort()\<close>\<close>

definition abort :: "nat \<Rightarrow> hook_state \<Rightarrow> hook_state" where
  "abort i s = s\<lparr>controllers := (controllers s)[i := True]\<rparr>"

definition signal_aborted :: "hook_state \<Rightarrow> nat \<Rightarrow> bool" where
  "signal_aborted s i = (i < length (controllers s) \<and> controllers s ! i)"

text \<open>\<^verbatim>\<open>refresh\<close>, as created by the render whose props are \<open>provider\<close> and \<open>chainId\<close>.\<close>

definition refresh :: "provider option \<Rightarrow> nat option \<Rightarrow> hook_state \<Rightarrow> hook_state" where
  "refresh provider chainId s =
     (let s1 = (case abortControllerRef s of
                  None \<Rightarrow> s
                | Some i \<Rightarrow>
                    (abort i (s\<lparr>providerRef := None, chainIdRef := None\<rparr>))
                      \<lparr>abortControllerRef := None\<rparr>);
          s2 = s1\<lparr>providerRef := provider, chainIdRef := chainId,
                  st_instance := None, st_error := None, st_status := Idle\<rparr>
      in if provider \<noteq> None then s2\<lparr>providerChanged := providerChanged s2 + 1\<rparr> else s2)"

text \<open>
  The main effect. When it gets as far as calling createFhevmInstance, the call is
  appended to \<open>started\<close>. A failed \<^verbatim>\<open>_assert\<close> throws.
\<close>

definition mainEffect :: "hook_state \<Rightarrow> js_error + hook_state" where
  "mainEffect s =
     (if \<not> isRunning s
      then Inr ((case abortControllerRef s of
                   None \<Rightarrow> s
                 | Some i \<Rightarrow> (abort i s)\<lparr>abortControllerRef := None\<rparr>)
                \<lparr>st_instance := None, st_error := None, st_status := Idle\<rparr>)
      else case providerRef s of
        None \<Rightarrow> Inr (s\<lparr>st_instance := None, st_error := None, st_status := Idle\<rparr>)
      | Some p \<Rightarrow>
          (case (case abortControllerRef s of
                   None \<Rightarrow> (length (controllers s),
                            s\<lparr>controllers := controllers s @ [False],
                              abortControllerRef := Some (length (controllers s))\<rparr>)
                 | Some i \<Rightarrow> (i, s)) of
             (i, s1) \<Rightarrow>
               if signal_aborted s1 i
               then Inl (assertionError ''Abort controller should not be aborted at this point'')
               else Inr (s1\<lparr>st_status := Loading, st_error := None,
                             started := started s1 @
                               [\<lparr>thisSignal = i, thisProvider = p,
                                 thisChainId = chainIdRef s1,
                                 thisRpcUrlsByChainId = mockChainsRef s1\<rparr>]\<rparr>)))"

text \<open>The \<^verbatim>\<open>then\<close> callback of one call.\<close>

definition onFulfilled :: "attempt \<Rightarrow> fhevm_instance \<Rightarrow> hook_state \<Rightarrow> js_error + hook_state" where
  "onFulfilled a inst s =
     (if signal_aborted s (thisSignal a) then Inr s
      else if Some (thisProvider a) \<noteq> providerRef s
      then Inl (assertionError ''Provider should not have changed during creation'')
      else Inr (s\<lparr>st_instance := Some inst, st_error := None, st_status := Ready\<rparr>))"

text \<open>The \<^verbatim>\<open>catch\<close> callback of one call.\<close>

definition onRejected :: "attempt \<Rightarrow> js_error \<Rightarrow> hook_state \<Rightarrow> js_error + hook_state" where
  "onRejected a err s =
     (if signal_aborted s (thisSignal a) then Inr s
      else if Some (thisProvider a) \<noteq> providerRef s
      then Inl (assertionError ''Provider should not have changed during creation'')
      else Inr (s\<lparr>st_instance := None, st_error := Some err, st_status := ErrorState\<rparr>))"

text \<open>
  \<^verbatim>\<open>promise.then(f).catch(g)\<close>: \<open>g\<close> also receives what \<open>f\<close> throws. What \<open>g\<close>
  throws rejects the chain, with nobody listening.
\<close>

definition settle :: "attempt \<Rightarrow> js_error + fhevm_instance \<Rightarrow> hook_state \<Rightarrow> js_error + hook_state" where
  "settle a result s =
     (case result of
        Inl err \<Rightarrow> onRejected a err s
      | Inr inst \<Rightarrow>
          (case onFulfilled a inst s of
             Inl thrown \<Rightarrow> onRejected a thrown s
           | Inr s' \<Rightarrow> Inr s'))"

text \<open>The cleanup of the last effect, run at unmount.\<close>

definition cleanup :: "hook_state \<Rightarrow> hook_state" where
  "cleanup s = (case abortControllerRef s of None \<Rightarrow> s | Some i \<Rightarrow> abort i s)"

text \<open>The options the main effect passes for a call.\<close>

definition attempt_options :: "attempt \<Rightarrow> options" where
  "attempt_options a =
     \<lparr>o_chainId = thisChainId a, o_publicKeyOrAddress = None, o_kmsContractAddress = None,
      o_aclContractAddress = None, o_provider = Some (thisProvider a),
      o_mockChains = thisRpcUrlsByChainId a\<rparr>"

subsection \<open>What can happen to a mounted hook\<close>

text \<open>
  React runs \<^verbatim>\<open>refresh\<close> when the props change (or the user calls it), sets
  \<^verbatim>\<open>_isRunning\<close> from \<^verbatim>\<open>enabled\<close>, reruns the main effect, and unmounts; the
  runtime settles the promise of the \<open>i\<close>-th started call. A callback that throws leaves
  the state as it was when it threw; every throw above comes before the first write.
\<close>

datatype event =
    Refresh "provider option" "nat option"
  | SetEnabled bool
  | MainEffect
  | Settle nat "js_error + fhevm_instance"
  | Unmount

fun step :: "event \<Rightarrow> hook_state \<Rightarrow> hook_state" where
  "step (Refresh p c) s = refresh p c s"
| "step (SetEnabled b) s = s\<lparr>isRunning := b\<rparr>"
| "step MainEffect s = (case mainEffect s of Inl err \<Rightarrow> s | Inr s' \<Rightarrow> s')"
| "step (Settle i result) s =
     (if i < length (started s)
      then (case settle (started s ! i) result s of Inl err \<Rightarrow> s | Inr s' \<Rightarrow> s')
      else s)"
| "step Unmount s = cleanup s"


inductive reachable :: "hook_state \<Rightarrow> bool" where
  mounted: "reachable (mount p c mocks enabled)"
| stepped: "reachable s \<Longrightarrow> reachable (step e s)"

text \<open>Whether an event is a call of \<^verbatim>\<open>refresh\<close>, the one operation that changes the identity.\<close>

fun is_refresh :: "event \<Rightarrow> bool" where
  "is_refresh (Refresh p c) = True"
| "is_refresh e = False"

text \<open>What an observer of the hook sees.\<close>

definition observable :: "hook_state \<Rightarrow> fhevm_instance option \<times> go_state \<times> js_error option" where
  "observable s = (st_instance s, st_status s, st_error s)"

subsection \<open>Sample inputs\<close>

text \<open>
  A world in which the signal is never aborted and every external call succeeds, except
  that the provider's \<^verbatim>\<open>getNetwork\<close> rejects; an empty database without failures; and
  options that give a provider URL and nothing else.
\<close>

definition sample_instance :: ext_instance where
  "sample_instance = \<lparr>has_getPublicKey = True, getPublicKey_result = Inr ''pk-authoritative''\<rparr>"

definition sample_world :: world where
  "sample_world =
     \<lparr>abort_at = None, sdk_load = None, window_relayerSDK = True,
      getNetwork = Inl ''network unreachable'',
      initSDK = (\<lambda>cfg. None),
      createInstance = (\<lambda>cfg. Inr sample_instance),
      clock = (\<lambda>t. 1000)\<rparr>"

definition empty_db :: db_state where
  "empty_db = \<lparr>keyValueStore = [], faults = []\<rparr>"

definition sample_options :: options where
  "sample_options =
     \<lparr>o_chainId = None, o_publicKeyOrAddress = None, o_kmsContractAddress = None,
      o_aclContractAddress = None, o_provider = Some (RpcUrl ''http://node''),
      o_mockChains = None\<rparr>"

text \<open>
  What holds of every state a mounted hook can be in: the current controller exists, and a
  started call whose signal is not aborted was started under the current controller and
  for the provider now in \<open>providerRef\<close>.
\<close>

definition hook_inv :: "hook_state \<Rightarrow> bool" where
  "hook_inv s =
     ((\<forall>i. abortControllerRef s = Some i \<longrightarrow> i < length (controllers s))
      \<and> (\<forall>a \<in> set (started s).
            thisSignal a < length (controllers s)
            \<and> (\<not> signal_aborted s (thisSignal a) \<longrightarrow>
                 abortControllerRef s = Some (thisSignal a)
                 \<and> providerRef s = Some (thisProvider a))))"

text \<open>
  A wrapped instance, the call the main effect starts right after a mount with provider
  \<^verbatim>\<open>"http://node"\<close>, the state that main effect leaves, and the same state with
  another provider written into \<open>providerRef\<close>.
\<close>

definition sample_facade :: "nat option \<Rightarrow> fhevm_instance" where
  "sample_facade c = \<lparr>wrapped = sample_instance, actualChainId_of = c,
                      mockChains_of = DEFAULT_MOCK_CHAINS\<rparr>"

definition sample_attempt :: attempt where
  "sample_attempt = \<lparr>thisSignal = 0, thisProvider = RpcUrl ''http://node'',
                     thisChainId = None, thisRpcUrlsByChainId = None\<rparr>"

definition loading_state :: hook_state where
  "loading_state = step MainEffect (mount (Some (RpcUrl ''http://node'')) None None True)"

definition drifted_state :: hook_state where
  "drifted_state = loading_state\<lparr>providerRef := Some (RpcUrl ''http://other'')\<rparr>"

section \<open>Properties of the key cache\<close>

lemma storage_get_ok:
  "\<not> nth_fault db 0 \<Longrightarrow> map_of (keyValueStore db) key = Some (JsonTable t) \<Longrightarrow>
   storage_get key db = (db\<lparr>faults := tl (faults db)\<rparr>, Some (JsonTable t))"
  by (cases "faults db") (auto simp: nth_fault_def storage_get_def next_fault_def falsy_text_def)

lemma storage_get_result:
  "snd (storage_get key db) = None \<or> snd (storage_get key db) = map_of (keyValueStore db) key"
  by (cases "faults db")
     (auto simp: storage_get_def next_fault_def split: prod.splits bool.splits option.splits)

lemma storage_set_cases:
  "storage_set key v db =
     (if nth_fault db 0 then (db\<lparr>faults := tl (faults db)\<rparr>, Inl IDBError)
      else (db\<lparr>faults := tl (faults db), keyValueStore := AList.update key v (keyValueStore db)\<rparr>, Inr ()))"
  by (cases "faults db") (auto simp: nth_fault_def storage_set_def next_fault_def)

lemma nth_fault_tl: "nth_fault (db\<lparr>faults := tl (faults db)\<rparr>) n = nth_fault db (Suc n)"
  by (cases "faults db") (auto simp: nth_fault_def)

lemma update_keeps_others:
  "filter (\<lambda>p. fst p \<noteq> a) (AList.update a v t) = filter (\<lambda>p. fst p \<noteq> a) t"
  by (induction t) auto

lemma set_persisted:
  assumes "\<not> nth_fault (storage st) 0" "persisted st = Some (JsonTable t)"
  shows "persisted (fst (setCachedPublicKey now chainId pk kms st)) =
           Some (JsonTable (if nth_fault (storage st) 1 then t
                            else AList.update (getCacheKey chainId kms)
                                   \<lparr>publicKey = pk, timestamp = now\<rparr> t))"
  using assms
  by (simp add: setCachedPublicKey_def persisted_def storage_get_ok JSON_parse_def Let_def
       storage_set_cases nth_fault_tl update_conv' split: prod.splits sum.splits)

text \<open>
  Claim C4. An entry stored at \<open>t0\<close> answers \<^verbatim>\<open>getCachedPublicKey\<close> exactly while
  \<open>now < t0 + CACHE_DURATION\<close> (24 hours), in both tiers: a memory entry that is still
  valid is returned; with no valid memory entry, a valid entry of the persistent table is
  returned (the read succeeding); and when every entry held for the key, in memory and
  in the persistent table, has \<open>t0 + CACHE_DURATION \<le> now\<close>, the answer is \<^verbatim>\<open>null\<close>.
\<close>

theorem getCachedPublicKey_ttl:
  fixes st :: pks_state and chainId :: nat and kms :: "string option" and now :: int
  defines "key \<equiv> getCacheKey chainId kms"
  defines "res \<equiv> snd (getCachedPublicKey now chainId kms st)"
  shows
   "(map_of (memoryCache st) key = Some m \<and> now < timestamp m + CACHE_DURATION
       \<longrightarrow> res = Inr (Some (publicKey m)))
    \<and> ((\<forall>m'. map_of (memoryCache st) key = Some m' \<longrightarrow> timestamp m' + CACHE_DURATION \<le> now)
        \<and> \<not> nth_fault (storage st) 0 \<and> persisted st = Some (JsonTable t)
        \<and> map_of t key = Some e \<and> now < timestamp e + CACHE_DURATION
       \<longrightarrow> res = Inr (Some (publicKey e)))
    \<and> ((\<forall>m'. map_of (memoryCache st) key = Some m' \<longrightarrow> timestamp m' + CACHE_DURATION \<le> now)
        \<and> (\<forall>t' e'. persisted st = Some (JsonTable t') \<and> map_of t' key = Some e'
               \<longrightarrow> timestamp e' + CACHE_DURATION \<le> now)
       \<longrightarrow> res = Inr None)"
proof (intro conjI impI)
  assume "map_of (memoryCache st) key = Some m \<and> now < timestamp m + CACHE_DURATION"
  then show "res = Inr (Some (publicKey m))"
    by (simp add: res_def key_def getCachedPublicKey_def isValidCacheEntry_def Let_def)
next
  assume h: "(\<forall>m'. map_of (memoryCache st) key = Some m' \<longrightarrow> timestamp m' + CACHE_DURATION \<le> now)
          \<and> \<not> nth_fault (storage st) 0 \<and> persisted st = Some (JsonTable t)
          \<and> map_of t key = Some e \<and> now < timestamp e + CACHE_DURATION"
  then have d: "storage_get STORAGE_KEY (storage st)
                 = ((storage st)\<lparr>faults := tl (faults (storage st))\<rparr>, Some (JsonTable t))"
    using storage_get_ok [of "storage st" STORAGE_KEY t] by (simp add: persisted_def)
  from h d show "res = Inr (Some (publicKey e))"
    unfolding res_def key_def getCachedPublicKey_def
    by (auto simp: isValidCacheEntry_def Let_def JSON_parse_def split: option.splits)
next
  assume h: "(\<forall>m'. map_of (memoryCache st) key = Some m' \<longrightarrow> timestamp m' + CACHE_DURATION \<le> now)
        \<and> (\<forall>t' e'. persisted st = Some (JsonTable t') \<and> map_of t' key = Some e'
               \<longrightarrow> timestamp e' + CACHE_DURATION \<le> now)"
  obtain db' r where d: "storage_get STORAGE_KEY (storage st) = (db', r)"
    by (cases "storage_get STORAGE_KEY (storage st)")
  have r: "r = None \<or> r = persisted st"
    using d storage_get_result [of STORAGE_KEY "storage st"] by (simp add: persisted_def)
  from h d r show "res = Inr None"
    unfolding res_def key_def getCachedPublicKey_def
    by (auto simp: isValidCacheEntry_def Let_def JSON_parse_def
             split: option.splits stored_text.splits sum.splits)
qed

theorem getCachedPublicKey_ttl_witness:
  "snd (getCachedPublicKey 86400999 5 None
         \<lparr>memoryCache = [(getCacheKey 5 None, \<lparr>publicKey = ''K1'', timestamp = 1000\<rparr>)],
          storage = \<lparr>keyValueStore = [], faults = []\<rparr>\<rparr>) = Inr (Some ''K1'')
   \<and> snd (getCachedPublicKey 86401000 5 None
         \<lparr>memoryCache = [(getCacheKey 5 None, \<lparr>publicKey = ''K1'', timestamp = 1000\<rparr>)],
          storage = \<lparr>keyValueStore = [], faults = []\<rparr>\<rparr>) = Inr None
   \<and> snd (getCachedPublicKey 86400999 5 None
         \<lparr>memoryCache = [],
          storage = \<lparr>keyValueStore =
                       [(STORAGE_KEY,
                         JsonTable [(getCacheKey 5 None, \<lparr>publicKey = ''K1'', timestamp = 1000\<rparr>)])],
                     faults = []\<rparr>\<rparr>) = Inr (Some ''K1'')
   \<and> snd (getCachedPublicKey 86401000 5 None
         \<lparr>memoryCache = [],
          storage = \<lparr>keyValueStore =
                       [(STORAGE_KEY,
                         JsonTable [(getCacheKey 5 None, \<lparr>publicKey = ''K1'', timestamp = 1000\<rparr>)])],
                     faults = []\<rparr>\<rparr>) = Inr None"
proof -
  let ?e = "\<lparr>publicKey = ''K1'', timestamp = 1000\<rparr>"
  let ?k = "getCacheKey 5 None"
  let ?mem = "\<lparr>memoryCache = [(?k, ?e)], storage = \<lparr>keyValueStore = [], faults = []\<rparr>\<rparr>"
  let ?per = "\<lparr>memoryCache = [],
               storage = \<lparr>keyValueStore = [(STORAGE_KEY, JsonTable [(?k, ?e)])], faults = []\<rparr>\<rparr>"
  have 1: "snd (getCachedPublicKey 86400999 5 None ?mem) = Inr (Some ''K1'')"
    using getCachedPublicKey_ttl [where st = ?mem and chainId = 5 and kms = None
                                     and now = 86400999 and m = ?e, THEN conjunct1]
    by (simp add: CACHE_DURATION_def)
  have 2: "snd (getCachedPublicKey 86401000 5 None ?mem) = Inr None"
    using getCachedPublicKey_ttl [where st = ?mem and chainId = 5 and kms = None
                                     and now = 86401000, THEN conjunct2, THEN conjunct2]
    by (simp add: CACHE_DURATION_def persisted_def)
  have 3: "snd (getCachedPublicKey 86400999 5 None ?per) = Inr (Some ''K1'')"
    using getCachedPublicKey_ttl [where st = ?per and chainId = 5 and kms = None
                                     and now = 86400999 and t = "[(?k, ?e)]" and e = ?e,
                                   THEN conjunct2, THEN conjunct1]
    by (simp add: CACHE_DURATION_def persisted_def nth_fault_def)
  have 4: "snd (getCachedPublicKey 86401000 5 None ?per) = Inr None"
    using getCachedPublicKey_ttl [where st = ?per and chainId = 5 and kms = None
                                     and now = 86401000, THEN conjunct2, THEN conjunct2]
    by (simp add: CACHE_DURATION_def persisted_def)
  from 1 2 3 4 show ?thesis by blast
qed

text \<open>
  Claim C5, amended. \<^verbatim>\<open>setCachedPublicKey\<close> for key A, when its read of the persistent
  table succeeds and delivers the table \<open>t\<close>, leaves a table in which every other key has
  the entry it had (the other entries are the same list, in the same order); A's entry is
  the fresh one when the write goes through, and the table is \<open>t\<close> itself when the write
  fails.
\<close>

theorem setCachedPublicKey_merges:
  assumes readable: "\<not> nth_fault (storage st) 0"
      and table: "persisted st = Some (JsonTable t)"
  shows "\<exists>t'. persisted (fst (setCachedPublicKey now chainId pk kms st)) = Some (JsonTable t')
            \<and> (\<forall>other. other \<noteq> getCacheKey chainId kms \<longrightarrow> map_of t' other = map_of t other)
            \<and> filter (\<lambda>p. fst p \<noteq> getCacheKey chainId kms) t'
                = filter (\<lambda>p. fst p \<noteq> getCacheKey chainId kms) t
            \<and> (\<not> nth_fault (storage st) 1 \<longrightarrow>
                 map_of t' (getCacheKey chainId kms) = Some \<lparr>publicKey = pk, timestamp = now\<rparr>)
            \<and> (nth_fault (storage st) 1 \<longrightarrow> t' = t)"
proof (cases "nth_fault (storage st) 1")
  case True
  with set_persisted [OF readable table, of now chainId pk kms] show ?thesis by simp
next
  case False
  with set_persisted [OF readable table, of now chainId pk kms] show ?thesis
    by (simp add: update_conv' update_keeps_others)
qed

theorem setCachedPublicKey_merges_witness:
  "\<exists>t'. persisted (fst (setCachedPublicKey 5000 5 ''pubA'' None
            \<lparr>memoryCache = [],
             storage = \<lparr>keyValueStore =
                          [(STORAGE_KEY,
                            JsonTable [(getCacheKey 1 None, \<lparr>publicKey = ''pubB'', timestamp = 10\<rparr>),
                                       (getCacheKey 2 None, \<lparr>publicKey = ''pubC'', timestamp = 20\<rparr>)])],
                        faults = []\<rparr>\<rparr>)) = Some (JsonTable t')
       \<and> map_of t' (getCacheKey 1 None) = Some \<lparr>publicKey = ''pubB'', timestamp = 10\<rparr>
       \<and> map_of t' (getCacheKey 2 None) = Some \<lparr>publicKey = ''pubC'', timestamp = 20\<rparr>
       \<and> map_of t' (getCacheKey 5 None) = Some \<lparr>publicKey = ''pubA'', timestamp = 5000\<rparr>"
proof -
  let ?t = "[(getCacheKey 1 None, \<lparr>publicKey = ''pubB'', timestamp = 10\<rparr>),
             (getCacheKey 2 None, \<lparr>publicKey = ''pubC'', timestamp = 20\<rparr>)]"
  let ?st = "\<lparr>memoryCache = [],
              storage = \<lparr>keyValueStore = [(STORAGE_KEY, JsonTable ?t)], faults = []\<rparr>\<rparr>"
  have r: "\<not> nth_fault (storage ?st) 0" and w: "\<not> nth_fault (storage ?st) 1"
    by (simp_all add: nth_fault_def)
  have p: "persisted ?st = Some (JsonTable ?t)"
    by (simp add: persisted_def)
  have k1: "getCacheKey 1 None \<noteq> getCacheKey 5 None" by code_simp
  have k2: "getCacheKey 2 None \<noteq> getCacheKey 5 None" by code_simp
  have k3: "getCacheKey 1 None \<noteq> getCacheKey 2 None" by code_simp
  from setCachedPublicKey_merges [OF r p, of 5000 5 "''pubA''" None]
  obtain t' where
    a: "persisted (fst (setCachedPublicKey 5000 5 ''pubA'' None ?st)) = Some (JsonTable t')" and
    b: "\<forall>other. other \<noteq> getCacheKey 5 None \<longrightarrow> map_of t' other = map_of ?t other" and
    c: "\<not> nth_fault (storage ?st) 1 \<longrightarrow>
          map_of t' (getCacheKey 5 None) = Some \<lparr>publicKey = ''pubA'', timestamp = 5000\<rparr>"
    by blast
  from b k1 have b1: "map_of t' (getCacheKey 1 None) = map_of ?t (getCacheKey 1 None)" by blast
  from b k2 have b2: "map_of t' (getCacheKey 2 None) = map_of ?t (getCacheKey 2 None)" by blast
  from k3 have l2: "map_of ?t (getCacheKey 2 None) = Some \<lparr>publicKey = ''pubC'', timestamp = 20\<rparr>"
    by simp
  have l1: "map_of ?t (getCacheKey 1 None) = Some \<lparr>publicKey = ''pubB'', timestamp = 10\<rparr>"
    by simp
  from a b1 b2 l1 l2 c w show ?thesis by auto
qed

text \<open>
  Against C5 as stated: with the table holding B and C, the read failing (\<^verbatim>\<open>get\<close>
  catches and returns \<^verbatim>\<open>null\<close>) and the write-back going through, the table holds A
  alone afterwards; B's entry is gone.
\<close>

theorem setCachedPublicKey_failed_read_drops_others:
  "map_of (keyValueStore
            \<lparr>keyValueStore =
               [(STORAGE_KEY,
                 JsonTable [(getCacheKey 1 None, \<lparr>publicKey = ''pubB'', timestamp = 10\<rparr>),
                            (getCacheKey 2 None, \<lparr>publicKey = ''pubC'', timestamp = 20\<rparr>)])],
             faults = [True, False]\<rparr>) STORAGE_KEY
     = Some (JsonTable [(getCacheKey 1 None, \<lparr>publicKey = ''pubB'', timestamp = 10\<rparr>),
                        (getCacheKey 2 None, \<lparr>publicKey = ''pubC'', timestamp = 20\<rparr>)])
   \<and> persisted (fst (setCachedPublicKey 5000 5 ''pubA'' None
        \<lparr>memoryCache = [],
         storage = \<lparr>keyValueStore =
                      [(STORAGE_KEY,
                        JsonTable [(getCacheKey 1 None, \<lparr>publicKey = ''pubB'', timestamp = 10\<rparr>),
                                   (getCacheKey 2 None, \<lparr>publicKey = ''pubC'', timestamp = 20\<rparr>)])],
                    faults = [True, False]\<rparr>\<rparr>))
     = Some (JsonTable [(getCacheKey 5 None, \<lparr>publicKey = ''pubA'', timestamp = 5000\<rparr>)])
   \<and> map_of [(getCacheKey 5 None, \<lparr>publicKey = ''pubA'', timestamp = 5000\<rparr>)] (getCacheKey 1 None)
       = None"
proof -
  have k: "getCacheKey 5 None \<noteq> getCacheKey 1 None" by code_simp
  show ?thesis
    using k
    by (simp add: setCachedPublicKey_def persisted_def storage_get_def storage_set_def
          next_fault_def Let_def)
qed

text \<open>
  The failure path of the same read-merge-write: a read that fails gives \<^verbatim>\<open>null\<close>, the
  table is then taken as empty, and a write-back that goes through holds the new entry
  alone.
\<close>

lemma setCachedPublicKey_after_failed_read:
  assumes "nth_fault (storage st) 0" and "\<not> nth_fault (storage st) 1"
  shows "persisted (fst (setCachedPublicKey now chainId pk kms st))
           = Some (JsonTable [(getCacheKey chainId kms, \<lparr>publicKey = pk, timestamp = now\<rparr>)])"
proof -
  from assms obtain f2 fs where f: "faults (storage st) = True # fs"
    by (cases "faults (storage st)") (auto simp: nth_fault_def)
  with assms(2) have g: "\<not> nth_fault ((storage st)\<lparr>faults := fs\<rparr>) 0"
    by (simp add: nth_fault_def)
  from f have r: "storage_get STORAGE_KEY (storage st) = ((storage st)\<lparr>faults := fs\<rparr>, None)"
    by (simp add: storage_get_def next_fault_def)
  show ?thesis
    using g by (simp add: setCachedPublicKey_def Let_def r storage_set_cases persisted_def update_conv')
qed

text \<open>
  Claim C9. An unexpired entry held only by the persistent table is returned by
  \<^verbatim>\<open>getCachedPublicKey\<close>, and after the call the memory cache holds that same entry:
  the next call answers from memory and leaves the state alone.
\<close>

theorem getCachedPublicKey_promotes:
  assumes "map_of (memoryCache st) (getCacheKey chainId kms) = None"
      and "\<not> nth_fault (storage st) 0"
      and "persisted st = Some (JsonTable t)"
      and "map_of t (getCacheKey chainId kms) = Some e"
      and "now < timestamp e + CACHE_DURATION"
  shows "snd (getCachedPublicKey now chainId kms st) = Inr (Some (publicKey e))
       \<and> map_of (memoryCache (fst (getCachedPublicKey now chainId kms st)))
            (getCacheKey chainId kms) = Some e
       \<and> getCachedPublicKey now chainId kms (fst (getCachedPublicKey now chainId kms st))
           = (fst (getCachedPublicKey now chainId kms st), Inr (Some (publicKey e)))"
  using assms
  by (simp add: getCachedPublicKey_def persisted_def storage_get_ok JSON_parse_def Let_def
        isValidCacheEntry_def update_conv')

theorem getCachedPublicKey_promotes_witness:
  "snd (getCachedPublicKey 2000 5 None
         \<lparr>memoryCache = [],
          storage = \<lparr>keyValueStore =
                       [(STORAGE_KEY,
                         JsonTable [(getCacheKey 5 None, \<lparr>publicKey = ''K1'', timestamp = 1000\<rparr>)])],
                     faults = []\<rparr>\<rparr>) = Inr (Some ''K1'')
   \<and> map_of (memoryCache (fst (getCachedPublicKey 2000 5 None
         \<lparr>memoryCache = [],
          storage = \<lparr>keyValueStore =
                       [(STORAGE_KEY,
                         JsonTable [(getCacheKey 5 None, \<lparr>publicKey = ''K1'', timestamp = 1000\<rparr>)])],
                     faults = []\<rparr>\<rparr>))) (getCacheKey 5 None)
       = Some \<lparr>publicKey = ''K1'', timestamp = 1000\<rparr>"
proof -
  let ?e = "\<lparr>publicKey = ''K1'', timestamp = 1000\<rparr>"
  let ?st = "\<lparr>memoryCache = [],
              storage = \<lparr>keyValueStore = [(STORAGE_KEY, JsonTable [(getCacheKey 5 None, ?e)])],
                         faults = []\<rparr>\<rparr>"
  have 1: "map_of (memoryCache ?st) (getCacheKey 5 None) = None" by simp
  have 2: "\<not> nth_fault (storage ?st) 0" by (simp add: nth_fault_def)
  have 3: "persisted ?st = Some (JsonTable [(getCacheKey 5 None, ?e)])" by (simp add: persisted_def)
  have 4: "map_of [(getCacheKey 5 None, ?e)] (getCacheKey 5 None) = Some ?e" by simp
  have 5: "2000 < timestamp ?e + CACHE_DURATION" by (simp add: CACHE_DURATION_def)
  from getCachedPublicKey_promotes [OF 1 2 3 4 5] show ?thesis by simp
qed

text \<open>
  Claim C10. An empty KMS address and an absent one give the same cache key, so
  \<^verbatim>\<open>getCachedPublicKey\<close> and \<^verbatim>\<open>setCachedPublicKey\<close> cannot tell them apart: a key
  stored under one is read back under the other.
\<close>

theorem getCacheKey_empty_is_default:
  "getCacheKey chainId (Some []) = getCacheKey chainId None
   \<and> getCachedPublicKey now chainId (Some []) st = getCachedPublicKey now chainId None st
   \<and> setCachedPublicKey now chainId pk (Some []) st = setCachedPublicKey now chainId pk None st
   \<and> snd (getCachedPublicKey now chainId (Some []) (fst (setCachedPublicKey now chainId pk None st)))
       = Inr (Some pk)
   \<and> snd (getCachedPublicKey now chainId None (fst (setCachedPublicKey now chainId pk (Some []) st)))
       = Inr (Some pk)"
proof -
  have k: "getCacheKey chainId (Some []) = getCacheKey chainId None"
    by (simp add: getCacheKey_def)
  have m: "map_of (memoryCache (fst (setCachedPublicKey now chainId pk None st)))
             (getCacheKey chainId None) = Some \<lparr>publicKey = pk, timestamp = now\<rparr>"
    by (simp add: setCachedPublicKey_def Let_def update_conv'
             split: prod.splits sum.splits option.splits)
  have g: "map_of (memoryCache s) (getCacheKey chainId None) = Some \<lparr>publicKey = pk, timestamp = now\<rparr>
           \<Longrightarrow> snd (getCachedPublicKey now chainId None s) = Inr (Some pk)" for s
    by (simp add: getCachedPublicKey_def Let_def isValidCacheEntry_def CACHE_DURATION_def)
  have g1: "getCachedPublicKey now chainId (Some []) s = getCachedPublicKey now chainId None s" for s
    by (simp add: getCachedPublicKey_def k)
  have s1: "setCachedPublicKey now chainId pk (Some []) st = setCachedPublicKey now chainId pk None st"
    by (simp add: setCachedPublicKey_def k)
  have a: "snd (getCachedPublicKey now chainId None (fst (setCachedPublicKey now chainId pk None st)))
             = Inr (Some pk)"
    by (rule g [OF m])
  from k g1 s1 a show ?thesis by simp
qed

theorem getCacheKey_empty_is_default_witness:
  "getCacheKey 1337 (Some []) = ''1337_default'' \<and> getCacheKey 1337 None = ''1337_default''
   \<and> snd (getCachedPublicKey 7 1337 (Some [])
            (fst (setCachedPublicKey 7 1337 ''pub123'' None
                   \<lparr>memoryCache = [], storage = \<lparr>keyValueStore = [], faults = []\<rparr>\<rparr>)))
       = Inr (Some ''pub123'')"
proof -
  have d: "getCacheKey 1337 None = ''1337_default''" by code_simp
  from getCacheKey_empty_is_default
         [of 1337 7 "\<lparr>memoryCache = [], storage = \<lparr>keyValueStore = [], faults = []\<rparr>\<rparr>" "''pub123''"]
  show ?thesis using d by simp
qed

lemma cache_ops_absorb_failures:
  "\<exists>v. snd (getCachedPublicKey now chainId kms st) = Inr v"
  "snd (setCachedPublicKey now chainId pk kms st) = Inr ()"
  "snd (cleanupExpiredEntries now st) = Inr ()"
  "\<exists>v. snd (getCacheStats now st) = Inr v"
  by (auto simp: getCachedPublicKey_def setCachedPublicKey_def cleanupExpiredEntries_def
        getCacheStats_def Let_def split: prod.splits sum.splits option.splits)

lemma clearAll_throws:
  "nth_fault (storage st) 0 \<Longrightarrow> snd (clearAll st) = Inl IDBError"
  by (cases "faults (storage st)")
     (auto simp: clearAll_def storage_delete_def next_fault_def nth_fault_def Let_def)

text \<open>
  Claim C6 says no cache operation lets a failure of the persistent tier reach its
  caller. Four of the five keep it inside their \<^verbatim>\<open>try\<close> (\<open>cache_ops_absorb_failures\<close>
  above); \<^verbatim>\<open>clearAll\<close> awaits \<^verbatim>\<open>storage.delete\<close> outside any \<^verbatim>\<open>try\<close>, and
  \<^verbatim>\<open>delete\<close> rethrows: with a failing delete the caller gets the IndexedDB error.
\<close>

theorem clearAll_propagates_failure:
  "clearAll \<lparr>memoryCache = [], storage = \<lparr>keyValueStore = [], faults = [True]\<rparr>\<rparr>
     = (\<lparr>memoryCache = [], storage = \<lparr>keyValueStore = [], faults = []\<rparr>\<rparr>, Inl IDBError)"
  by (simp add: clearAll_def storage_delete_def next_fault_def Let_def)

section \<open>Properties of the wrapped instance\<close>

lemma isInteger_iff: "Number_isInteger n \<longleftrightarrow> (\<exists>i. n = Finite (of_int i))"
proof (cases n)
  case (Finite q)
  have "(of_int \<lfloor>q\<rfloor> = q) \<longleftrightarrow> (\<exists>i. q = of_int i)"
  proof
    assume "of_int \<lfloor>q\<rfloor> = q"
    then have "q = of_int \<lfloor>q\<rfloor>" by (rule sym)
    then show "\<exists>i. q = of_int i" ..
  next
    assume "\<exists>i. q = of_int i"
    then obtain i where "q = of_int i" ..
    then show "of_int \<lfloor>q\<rfloor> = q" by simp
  qed
  with Finite show ?thesis by simp
qed auto

text \<open>
  Claim C7. The wrapped \<^verbatim>\<open>encrypt32\<close> throws for every value that is not an integral
  number and for every integer outside \<open>[0, 2^32 - 1]\<close>; \<^verbatim>\<open>encrypt64\<close> throws for
  every value that is not a bigint and for every bigint outside \<open>[0, 2^64 - 1]\<close>;
  \<^verbatim>\<open>encryptBool\<close> throws for every value that is not a boolean. A throw is the whole
  result, so no call reaches the external instance; an accepted value is passed on to the
  external instance's method of the same name.
\<close>

theorem encrypt_validation:
  "((\<nexists>i. v = JSNumber (Finite (of_int i)))
       \<longrightarrow> encrypt32 v = Inl (Error ''encrypt32 requires an integer value''))
   \<and> ((i < 0 \<or> 4294967295 < i)
       \<longrightarrow> encrypt32 (JSNumber (Finite (of_int i)))
             = Inl (Error ''encrypt32 value must be between 0 and 2^32-1''))
   \<and> ((0 \<le> i \<and> i \<le> 2 ^ 32 - 1)
       \<longrightarrow> encrypt32 (JSNumber (Finite (of_int i))) = Inr (Ext_encrypt32 (of_int i)))
   \<and> ((\<nexists>b. v = JSBigInt b)
       \<longrightarrow> encrypt64 v = Inl (Error ''encrypt64 requires a bigint value''))
   \<and> ((i < 0 \<or> 18446744073709551615 < i)
       \<longrightarrow> encrypt64 (JSBigInt i) = Inl (Error ''encrypt64 value must be between 0 and 2^64-1''))
   \<and> ((0 \<le> i \<and> i \<le> 2 ^ 64 - 1) \<longrightarrow> encrypt64 (JSBigInt i) = Inr (Ext_encrypt64 i))
   \<and> ((\<nexists>b. v = JSBoolean b)
       \<longrightarrow> encryptBool v = Inl (Error ''encryptBool requires a boolean value''))
   \<and> encryptBool (JSBoolean b) = Inr (Ext_encryptBool b)"
proof (intro conjI impI)
  assume h: "\<nexists>i. v = JSNumber (Finite (of_int i))"
  show "encrypt32 v = Inl (Error ''encrypt32 requires an integer value'')"
  proof (cases v)
    case (JSNumber n)
    with h have "\<not> Number_isInteger n" by (auto simp: isInteger_iff)
    with JSNumber show ?thesis by simp
  qed simp_all
next
  assume "i < 0 \<or> 4294967295 < i"
  then have "(of_int i :: rat) < 0 \<or> (of_int i :: rat) > 4294967295"
    by (metis of_int_less_0_iff of_int_less_iff of_int_numeral)
  then show "encrypt32 (JSNumber (Finite (of_int i)))
               = Inl (Error ''encrypt32 value must be between 0 and 2^32-1'')"
    by auto
next
  assume "0 \<le> i \<and> i \<le> 2 ^ 32 - 1"
  then have "\<not> ((of_int i :: rat) < 0 \<or> (of_int i :: rat) > 4294967295)"
    by (simp add: not_less)
  then show "encrypt32 (JSNumber (Finite (of_int i))) = Inr (Ext_encrypt32 (of_int i))"
    by auto
next
  assume "\<nexists>b. v = JSBigInt b"
  then show "encrypt64 v = Inl (Error ''encrypt64 requires a bigint value'')"
    by (cases v) simp_all
next
  assume "i < 0 \<or> 18446744073709551615 < i"
  then show "encrypt64 (JSBigInt i) = Inl (Error ''encrypt64 value must be between 0 and 2^64-1'')"
    by auto
next
  assume "0 \<le> i \<and> i \<le> 2 ^ 64 - 1"
  then show "encrypt64 (JSBigInt i) = Inr (Ext_encrypt64 i)"
    by auto
next
  assume "\<nexists>b. v = JSBoolean b"
  then show "encryptBool v = Inl (Error ''encryptBool requires a boolean value'')"
    by (cases v) simp_all
next
  show "encryptBool (JSBoolean b) = Inr (Ext_encryptBool b)" by simp
qed

theorem encrypt_validation_witness:
  "encrypt32 (JSString ''7'') = Inl (Error ''encrypt32 requires an integer value'')
   \<and> encrypt32 (JSNumber (Finite (3 / 2))) = Inl (Error ''encrypt32 requires an integer value'')
   \<and> encrypt32 (JSNumber NaN) = Inl (Error ''encrypt32 requires an integer value'')
   \<and> encrypt32 (JSNumber (Finite (- 1))) = Inl (Error ''encrypt32 value must be between 0 and 2^32-1'')
   \<and> encrypt32 (JSNumber (Finite 4294967296))
        = Inl (Error ''encrypt32 value must be between 0 and 2^32-1'')
   \<and> encrypt32 (JSNumber (Finite 4294967295)) = Inr (Ext_encrypt32 4294967295)
   \<and> encrypt64 (JSNumber (Finite 7)) = Inl (Error ''encrypt64 requires a bigint value'')
   \<and> encrypt64 (JSBigInt 18446744073709551616)
        = Inl (Error ''encrypt64 value must be between 0 and 2^64-1'')
   \<and> encrypt64 (JSBigInt 18446744073709551615) = Inr (Ext_encrypt64 18446744073709551615)
   \<and> encryptBool (JSNumber (Finite 1)) = Inl (Error ''encryptBool requires a boolean value'')
   \<and> encryptBool (JSBoolean True) = Inr (Ext_encryptBool True)"
proof -
  have half: "\<nexists>i. JSNumber (Finite (3 / 2)) = JSNumber (Finite (of_int i))"
  proof
    assume "\<exists>i. JSNumber (Finite (3 / 2)) = JSNumber (Finite (of_int i))"
    then obtain i :: int where "(3 / 2 :: rat) = of_int i" by auto
    then have "(3 :: rat) = of_int (2 * i)" by simp
    then have "(3 :: int) = 2 * i" by (metis of_int_eq_iff of_int_numeral)
    then show False by presburger
  qed
  have 1: "encrypt32 (JSString ''7'') = Inl (Error ''encrypt32 requires an integer value'')"
    using encrypt_validation [where v = "JSString ''7''", THEN conjunct1] by simp
  have 2: "encrypt32 (JSNumber (Finite (3 / 2))) = Inl (Error ''encrypt32 requires an integer value'')"
    using encrypt_validation [where v = "JSNumber (Finite (3 / 2))", THEN conjunct1] half by blast
  have 3: "encrypt32 (JSNumber NaN) = Inl (Error ''encrypt32 requires an integer value'')"
    using encrypt_validation [where v = "JSNumber NaN", THEN conjunct1] by simp
  have 4: "encrypt32 (JSNumber (Finite (- 1))) = Inl (Error ''encrypt32 value must be between 0 and 2^32-1'')"
    using encrypt_validation [where i = "- 1", THEN conjunct2, THEN conjunct1] by simp
  have 5: "encrypt32 (JSNumber (Finite 4294967296))
             = Inl (Error ''encrypt32 value must be between 0 and 2^32-1'')"
    using encrypt_validation [where i = 4294967296, THEN conjunct2, THEN conjunct1] by simp
  have 6: "encrypt32 (JSNumber (Finite 4294967295)) = Inr (Ext_encrypt32 4294967295)"
    using encrypt_validation [where i = 4294967295, THEN conjunct2, THEN conjunct2, THEN conjunct1]
    by simp
  have 7: "encrypt64 (JSNumber (Finite 7)) = Inl (Error ''encrypt64 requires a bigint value'')"
    using encrypt_validation [where v = "JSNumber (Finite 7)",
            THEN conjunct2, THEN conjunct2, THEN conjunct2, THEN conjunct1] by simp
  have 8: "encrypt64 (JSBigInt 18446744073709551616)
             = Inl (Error ''encrypt64 value must be between 0 and 2^64-1'')"
    using encrypt_validation [where i = 18446744073709551616,
            THEN conjunct2, THEN conjunct2, THEN conjunct2, THEN conjunct2, THEN conjunct1] by simp
  have 9: "encrypt64 (JSBigInt 18446744073709551615) = Inr (Ext_encrypt64 18446744073709551615)"
    using encrypt_validation [where i = 18446744073709551615,
            THEN conjunct2, THEN conjunct2, THEN conjunct2, THEN conjunct2, THEN conjunct2,
            THEN conjunct1] by simp
  have 10: "encryptBool (JSNumber (Finite 1)) = Inl (Error ''encryptBool requires a boolean value'')"
    using encrypt_validation [where v = "JSNumber (Finite 1)",
            THEN conjunct2, THEN conjunct2, THEN conjunct2, THEN conjunct2, THEN conjunct2,
            THEN conjunct2, THEN conjunct1] by simp
  have 11: "encryptBool (JSBoolean True) = Inr (Ext_encryptBool True)"
    using encrypt_validation [where b = True,
            THEN conjunct2, THEN conjunct2, THEN conjunct2, THEN conjunct2, THEN conjunct2,
            THEN conjunct2, THEN conjunct2] by simp
  from 1 2 3 4 5 6 7 8 9 10 11 show ?thesis by blast
qed

section \<open>Properties of createFhevmInstance\<close>

lemma detect_fails:
  "o_chainId opts = None \<Longrightarrow> getNetwork w = Inl msg \<Longrightarrow> detectChainId opts w = None"
  by (simp add: detectChainId_def)

lemma select_unset:
  "selectConfig opts None ap pk
     = DefaultShape 1337 ap pk (o_kmsContractAddress opts) (o_aclContractAddress opts)"
  by (simp add: selectConfig_def SEPOLIA_chainId_def)

lemma lookup_unset: "lookupPublicKey opts w None pks = (pks, Inr (o_publicKeyOrAddress opts))"
  by (simp add: lookupPublicKey_def)

lemma retrieve_unset: "retrievePublicKey opts w None pk inst pks = pks"
  by (simp add: retrievePublicKey_def)

lemma cleanup_never_throws: "snd (cleanupExpiredEntries now st) = Inr ()"
  by (auto simp: cleanupExpiredEntries_def Let_def split: prod.splits sum.splits option.splits)

text \<open>
  Claim C8, amended. When no chain id is supplied and \<^verbatim>\<open>getNetwork\<close> rejects, the
  rejection is caught: the local chain id stays unset, the wrapped instance reports it
  unset, and with the remaining steps succeeding the promise resolves. The configuration
  handed to the SDK, whenever one is handed, is the default shape with
  \<^verbatim>\<open>chainId: actualChainId || 1337\<close>, that is with chain id 1337, not unset.
\<close>

theorem chain_detection_failure_absorbed:
  fixes opts :: options and w :: world and db :: db_state
  defines "r \<equiv> createFhevmInstance opts w db"
  defines "cfg0 \<equiv> DefaultShape 1337 (resolveProvider (o_provider opts)) (o_publicKeyOrAddress opts)
                     (o_kmsContractAddress opts) (o_aclContractAddress opts)"
  assumes unsupplied: "o_chainId opts = None"
      and fails: "getNetwork w = Inl msg"
  shows "detectChainId opts w = None
       \<and> (handed_config r = None \<or> handed_config r = Some cfg0)
       \<and> (\<forall>inst. outcome r = Inr inst \<longrightarrow> getChainId inst = None)
       \<and> (abort_at w = None \<and> sdk_load w = None \<and> window_relayerSDK w
            \<and> initSDK w cfg0 = None \<and> createInstance w cfg0 = Inr fi
          \<longrightarrow> handed_config r = Some cfg0
              \<and> config_chainId cfg0 = Some 1337
              \<and> (\<exists>inst. outcome r = Inr inst \<and> wrapped inst = fi \<and> getChainId inst = None)
              \<and> db_after r
                  = storage (fst (cleanupExpiredEntries (clock w 3) \<lparr>memoryCache = [], storage = db\<rparr>)))"
proof -
  have d: "detectChainId opts w = None"
    using unsupplied fails by (rule detect_fails)
  obtain pks1 where c: "cleanupExpiredEntries (clock w 3) \<lparr>memoryCache = [], storage = db\<rparr>
                          = (pks1, Inr ())"
    using cleanup_never_throws [of "clock w 3" "\<lparr>memoryCache = [], storage = db\<rparr>"]
    by (cases "cleanupExpiredEntries (clock w 3) \<lparr>memoryCache = [], storage = db\<rparr>") simp
  have 2: "handed_config r = None \<or> handed_config r = Some cfg0"
    unfolding r_def cfg0_def createFhevmInstance_def
    by (simp add: d c lookup_unset select_unset retrieve_unset Let_def
             split: option.splits sum.splits)
  have 3: "\<forall>inst. outcome r = Inr inst \<longrightarrow> getChainId inst = None"
    unfolding r_def createFhevmInstance_def
    by (auto simp add: d c lookup_unset select_unset retrieve_unset Let_def getChainId_def
             split: option.splits sum.splits if_splits)
  have 4: "abort_at w = None \<and> sdk_load w = None \<and> window_relayerSDK w
            \<and> initSDK w cfg0 = None \<and> createInstance w cfg0 = Inr fi
          \<longrightarrow> handed_config r = Some cfg0
              \<and> config_chainId cfg0 = Some 1337
              \<and> (\<exists>inst. outcome r = Inr inst \<and> wrapped inst = fi \<and> getChainId inst = None)
              \<and> db_after r
                  = storage (fst (cleanupExpiredEntries (clock w 3) \<lparr>memoryCache = [], storage = db\<rparr>))"
    unfolding r_def cfg0_def createFhevmInstance_def
    by (simp add: d c lookup_unset select_unset retrieve_unset Let_def getChainId_def aborted_def)
  from d 2 3 4 show ?thesis by blast
qed

lemma sample_run:
  "createFhevmInstance sample_options sample_world empty_db
     = \<lparr>db_after = empty_db,
        handed_config = Some (DefaultShape 1337 (Some (JsonRpcProvider ''http://node'')) None None None),
        outcome = Inr \<lparr>wrapped = sample_instance, actualChainId_of = None,
                      mockChains_of = DEFAULT_MOCK_CHAINS\<rparr>\<rparr>"
  by (simp add: createFhevmInstance_def sample_options_def sample_world_def empty_db_def
        aborted_def resolveProvider_def detectChainId_def truthy_num_def
        cleanupExpiredEntries_def storage_get_def next_fault_def
        lookup_unset select_unset retrieve_unset Let_def)

text \<open>
  Against C8 as stated: in the sample world, with no chain id supplied and the network
  query failing, the configuration handed to the SDK carries chain id 1337.
\<close>

theorem handed_config_has_chain_id:
  "o_chainId sample_options = None
   \<and> getNetwork sample_world = Inl ''network unreachable''
   \<and> map_option config_chainId
        (handed_config (createFhevmInstance sample_options sample_world empty_db))
       = Some (Some 1337)"
  by (simp add: sample_run) (simp add: sample_options_def sample_world_def)

theorem chain_detection_failure_absorbed_witness:
  "o_chainId sample_options = None
   \<and> getNetwork sample_world = Inl ''network unreachable''
   \<and> handed_config (createFhevmInstance sample_options sample_world empty_db)
       = Some (DefaultShape 1337 (Some (JsonRpcProvider ''http://node'')) None None None)
   \<and> (\<exists>inst. outcome (createFhevmInstance sample_options sample_world empty_db) = Inr inst
          \<and> wrapped inst = sample_instance \<and> getChainId inst = None)"
proof -
  have u: "o_chainId sample_options = None" by (simp add: sample_options_def)
  have f: "getNetwork sample_world = Inl ''network unreachable''" by (simp add: sample_world_def)
  have rest: "abort_at sample_world = None \<and> sdk_load sample_world = None
              \<and> window_relayerSDK sample_world
              \<and> initSDK sample_world
                   (DefaultShape 1337 (resolveProvider (o_provider sample_options))
                      (o_publicKeyOrAddress sample_options) (o_kmsContractAddress sample_options)
                      (o_aclContractAddress sample_options)) = None
              \<and> createInstance sample_world
                   (DefaultShape 1337 (resolveProvider (o_provider sample_options))
                      (o_publicKeyOrAddress sample_options) (o_kmsContractAddress sample_options)
                      (o_aclContractAddress sample_options)) = Inr sample_instance"
    by (simp add: sample_world_def)
  from chain_detection_failure_absorbed [OF u f, of empty_db sample_instance] rest
  show ?thesis
    using u f by (simp add: sample_options_def resolveProvider_def)
qed

text \<open>
  An abort seen by any of the six reads of the signal rejects the promise.
\<close>

lemma abort_seen_rejects:
  assumes "aborted w 6"
  shows "\<exists>err. outcome (createFhevmInstance opts w db) = Inl err"
  using assms
  by (simp add: createFhevmInstance_def Let_def split: option.splits sum.splits prod.splits)

text \<open>
  Claim C1 says nothing is written once the signal is aborted. Every other \<^verbatim>\<open>await\<close>
  of an external call is followed by a read of the signal; the one on
  \<^verbatim>\<open>getPublicKey()\<close> is not. With the signal aborted during that call (point 7; the
  read after point 6 has passed), the run goes on to \<^verbatim>\<open>setCachedPublicKey\<close> and the
  persistent table, absent before, holds the retrieved key afterwards.
\<close>

theorem late_abort_still_writes_cache:
  "\<not> aborted (sample_world\<lparr>abort_at := Some 7\<rparr>) 6
   \<and> aborted (sample_world\<lparr>abort_at := Some 7\<rparr>) 7
   \<and> map_of (keyValueStore empty_db) STORAGE_KEY = None
   \<and> map_of (keyValueStore (db_after
        (createFhevmInstance (sample_options\<lparr>o_chainId := Some 5\<rparr>)
           (sample_world\<lparr>abort_at := Some 7\<rparr>) empty_db))) STORAGE_KEY
       = Some (JsonTable [(getCacheKey 5 None,
                           \<lparr>publicKey = ''pk-authoritative'', timestamp = 1000\<rparr>)])"
  by (simp add: createFhevmInstance_def sample_options_def sample_world_def empty_db_def
        sample_instance_def aborted_def resolveProvider_def detectChainId_def truthy_num_def
        truthy_str_def cleanupExpiredEntries_def storage_get_def storage_set_def next_fault_def
        lookupPublicKey_def getCachedPublicKey_def selectConfig_def retrievePublicKey_def
        setCachedPublicKey_def SEPOLIA_chainId_def DEFAULT_MOCK_CHAINS_def Let_def)

section \<open>Properties of useFhevm\<close>


lemma hook_inv_fields:
  "controllers s' = controllers s \<Longrightarrow> started s' = started s \<Longrightarrow>
   abortControllerRef s' = abortControllerRef s \<Longrightarrow> providerRef s' = providerRef s \<Longrightarrow>
   hook_inv s' = hook_inv s"
  by (simp add: hook_inv_def signal_aborted_def)

lemma inv_mount: "hook_inv (mount p c mocks enabled)"
  by (simp add: hook_inv_def mount_def)

lemma inv_setEnabled: "hook_inv s \<Longrightarrow> hook_inv (s\<lparr>isRunning := b\<rparr>)"
  by (simp add: hook_inv_fields [of "s\<lparr>isRunning := b\<rparr>" s])

lemma all_aborted_inv:
  assumes "\<forall>a \<in> set (started s). thisSignal a < length (controllers s) \<and> controllers s ! thisSignal a"
      and "\<forall>i. abortControllerRef s = Some i \<longrightarrow> i < length (controllers s)"
  shows "hook_inv s"
  using assms by (simp add: hook_inv_def signal_aborted_def)

lemma abort_current_kills_all:
  assumes inv: "hook_inv s" and cur: "abortControllerRef s = Some i"
      and a: "a \<in> set (started s)"
  shows "thisSignal a < length ((controllers s)[i := True])
         \<and> (controllers s)[i := True] ! thisSignal a"
proof -
  from inv cur have i: "i < length (controllers s)" by (simp add: hook_inv_def)
  from inv a have l: "thisSignal a < length (controllers s)" by (simp add: hook_inv_def)
  from inv a cur have "controllers s ! thisSignal a \<or> thisSignal a = i"
    using l by (auto simp: hook_inv_def signal_aborted_def)
  with i l show ?thesis by (auto simp: nth_list_update)
qed

lemma no_current_all_aborted:
  assumes inv: "hook_inv s" and cur: "abortControllerRef s = None"
      and a: "a \<in> set (started s)"
  shows "thisSignal a < length (controllers s) \<and> controllers s ! thisSignal a"
  using assms by (auto simp: hook_inv_def signal_aborted_def)

lemma refresh_fields:
  "started (refresh p c s) = started s"
  "abortControllerRef (refresh p c s) = None"
  "providerRef (refresh p c s) = p"
  "chainIdRef (refresh p c s) = c"
  "mockChainsRef (refresh p c s) = mockChainsRef s"
  "isRunning (refresh p c s) = isRunning s"
  "controllers (refresh p c s)
     = (case abortControllerRef s of None \<Rightarrow> controllers s
        | Some i \<Rightarrow> (controllers s)[i := True])"
  "observable (refresh p c s) = (None, Idle, None)"
  by (simp_all add: refresh_def abort_def Let_def observable_def split: option.splits)

lemma inv_refresh: assumes "hook_inv s" shows "hook_inv (refresh p c s)"
proof (rule all_aborted_inv)
  show "\<forall>a \<in> set (started (refresh p c s)).
          thisSignal a < length (controllers (refresh p c s))
          \<and> controllers (refresh p c s) ! thisSignal a"
  proof (cases "abortControllerRef s")
    case None
    with assms show ?thesis
      using no_current_all_aborted [OF assms None] by (simp add: refresh_fields)
  next
    case (Some i)
    with assms show ?thesis
      using abort_current_kills_all [OF assms Some] by (simp add: refresh_fields)
  qed
  show "\<forall>i. abortControllerRef (refresh p c s) = Some i
          \<longrightarrow> i < length (controllers (refresh p c s))"
    by (simp add: refresh_fields)
qed

lemma cleanup_fields:
  "started (cleanup s) = started s"
  "abortControllerRef (cleanup s) = abortControllerRef s"
  "providerRef (cleanup s) = providerRef s"
  "controllers (cleanup s)
     = (case abortControllerRef s of None \<Rightarrow> controllers s
        | Some i \<Rightarrow> (controllers s)[i := True])"
  by (simp_all add: cleanup_def abort_def split: option.splits)

lemma inv_cleanup: assumes "hook_inv s" shows "hook_inv (cleanup s)"
proof (cases "abortControllerRef s")
  case None
  then have "cleanup s = s" by (simp add: cleanup_def)
  with assms show ?thesis by simp
next
  case (Some i)
  show ?thesis
  proof (rule all_aborted_inv)
    show "\<forall>a \<in> set (started (cleanup s)).
            thisSignal a < length (controllers (cleanup s))
            \<and> controllers (cleanup s) ! thisSignal a"
      using abort_current_kills_all [OF assms Some] Some by (simp add: cleanup_fields)
    from assms Some have "i < length (controllers s)" by (simp add: hook_inv_def)
    with Some show "\<forall>i. abortControllerRef (cleanup s) = Some i
            \<longrightarrow> i < length (controllers (cleanup s))"
      by (simp add: cleanup_fields)
  qed
qed

lemma settle_fields:
  assumes "settle a r s = Inr s'"
  shows "controllers s' = controllers s \<and> started s' = started s
         \<and> abortControllerRef s' = abortControllerRef s \<and> providerRef s' = providerRef s
         \<and> isRunning s' = isRunning s"
proof -
  have f: "onFulfilled a inst s = Inr s' \<Longrightarrow> ?thesis" for inst
    by (auto simp: onFulfilled_def split: if_splits)
  have g: "onRejected a err s = Inr s' \<Longrightarrow> ?thesis" for err
    by (auto simp: onRejected_def split: if_splits)
  from assms f g show ?thesis
    by (auto simp: settle_def split: sum.splits)
qed

lemma inv_settle: "hook_inv s \<Longrightarrow> settle a r s = Inr s' \<Longrightarrow> hook_inv s'"
  using settle_fields [of a r s s'] hook_inv_fields [of s' s] by simp

lemma mainEffect_paused:
  assumes "\<not> isRunning s"
  shows "\<exists>s'. mainEffect s = Inr s' \<and> started s' = started s \<and> abortControllerRef s' = None
           \<and> providerRef s' = providerRef s \<and> observable s' = (None, Idle, None)
           \<and> controllers s' = (case abortControllerRef s of None \<Rightarrow> controllers s
                                | Some i \<Rightarrow> (controllers s)[i := True])"
  using assms by (simp add: mainEffect_def abort_def observable_def split: option.splits)

lemma mainEffect_no_provider:
  assumes "isRunning s" "providerRef s = None"
  shows "mainEffect s = Inr (s\<lparr>st_instance := None, st_error := None, st_status := Idle\<rparr>)"
  using assms by (simp add: mainEffect_def)

lemma mainEffect_fresh:
  assumes "isRunning s" "providerRef s = Some p" "abortControllerRef s = None"
  shows "mainEffect s
           = Inr (s\<lparr>controllers := controllers s @ [False],
                    abortControllerRef := Some (length (controllers s)),
                    st_status := Loading, st_error := None,
                    started := started s @
                      [\<lparr>thisSignal = length (controllers s), thisProvider = p,
                        thisChainId = chainIdRef s,
                        thisRpcUrlsByChainId = mockChainsRef s\<rparr>]\<rparr>)"
  using assms by (simp add: mainEffect_def signal_aborted_def)

lemma mainEffect_reuse:
  assumes "isRunning s" "providerRef s = Some p" "abortControllerRef s = Some i"
  shows "mainEffect s
           = (if signal_aborted s i
              then Inl (assertionError ''Abort controller should not be aborted at this point'')
              else Inr (s\<lparr>st_status := Loading, st_error := None,
                          started := started s @
                            [\<lparr>thisSignal = i, thisProvider = p, thisChainId = chainIdRef s,
                              thisRpcUrlsByChainId = mockChainsRef s\<rparr>]\<rparr>))"
  using assms by (simp add: mainEffect_def)

lemma inv_mainEffect:
  assumes inv: "hook_inv s" and m: "mainEffect s = Inr s'"
  shows "hook_inv s'"
proof (cases "isRunning s")
  case False
  from mainEffect_paused [OF False] m
  have f: "started s' = started s" "abortControllerRef s' = None"
          "controllers s' = (case abortControllerRef s of None \<Rightarrow> controllers s
                             | Some i \<Rightarrow> (controllers s)[i := True])"
    by auto
  show ?thesis
  proof (rule all_aborted_inv)
    show "\<forall>a \<in> set (started s'). thisSignal a < length (controllers s') \<and> controllers s' ! thisSignal a"
    proof (cases "abortControllerRef s")
      case None
      then show ?thesis using no_current_all_aborted [OF inv None] f by simp
    next
      case (Some i)
      then show ?thesis using abort_current_kills_all [OF inv Some] f by simp
    qed
    show "\<forall>i. abortControllerRef s' = Some i \<longrightarrow> i < length (controllers s')"
      using f by simp
  qed
next
  case True
  show ?thesis
  proof (cases "providerRef s")
    case None
    from m mainEffect_no_provider [OF True None]
    have e: "s' = s\<lparr>st_instance := None, st_error := None, st_status := Idle\<rparr>" by simp
    have "hook_inv s' = hook_inv s"
      unfolding e by (rule hook_inv_fields) simp_all
    with inv show ?thesis by simp
  next
    case (Some p)
    note prov = this
    show ?thesis
    proof (cases "abortControllerRef s")
      case None
      have old: "\<forall>a \<in> set (started s). thisSignal a < length (controllers s) \<and> controllers s ! thisSignal a"
        using no_current_all_aborted [OF inv None] by blast
      from m mainEffect_fresh [OF True prov None]
      have f: "started s' = started s @ [\<lparr>thisSignal = length (controllers s), thisProvider = p,
                        thisChainId = chainIdRef s, thisRpcUrlsByChainId = mockChainsRef s\<rparr>]"
              "controllers s' = controllers s @ [False]"
              "abortControllerRef s' = Some (length (controllers s))"
              "providerRef s' = Some p"
        using prov by auto
      show ?thesis
        unfolding hook_inv_def signal_aborted_def f
        using old by (auto simp: nth_append)
    next
      case (Some i)
      note cur = this
      from m mainEffect_reuse [OF True prov cur]
      have na: "\<not> signal_aborted s i" by (auto split: if_splits)
      from m mainEffect_reuse [OF True prov cur] na
      have f: "started s' = started s @ [\<lparr>thisSignal = i, thisProvider = p,
                        thisChainId = chainIdRef s, thisRpcUrlsByChainId = mockChainsRef s\<rparr>]"
              "controllers s' = controllers s"
              "abortControllerRef s' = Some i"
              "providerRef s' = Some p"
        using cur prov by auto
      from inv cur have i: "i < length (controllers s)" by (simp add: hook_inv_def)
      show ?thesis
        unfolding hook_inv_def signal_aborted_def f
        using inv i cur prov by (auto simp: hook_inv_def signal_aborted_def)
    qed
  qed
qed

lemma inv_step: "hook_inv s \<Longrightarrow> hook_inv (step e s)"
proof (cases e)
  case (Refresh p c)
  assume "hook_inv s"
  with Refresh show ?thesis by (simp add: inv_refresh)
next
  case (SetEnabled b)
  assume "hook_inv s"
  with SetEnabled show ?thesis by (simp add: inv_setEnabled)
next
  case MainEffect
  assume "hook_inv s"
  with MainEffect show ?thesis
    by (cases "mainEffect s") (simp_all add: inv_mainEffect)
next
  case (Settle i r)
  assume "hook_inv s"
  with Settle show ?thesis
    by (cases "settle (started s ! i) r s") (simp_all add: inv_settle)
next
  case Unmount
  assume "hook_inv s"
  with Unmount show ?thesis by (simp add: inv_cleanup)
qed

lemma reachable_inv: "reachable s \<Longrightarrow> hook_inv s"
  by (induction rule: reachable.induct) (simp_all add: inv_mount inv_step)

lemma abort_keeps: "k < length xs \<Longrightarrow> xs ! k \<Longrightarrow> (xs[i := True]) ! k"
  by (cases "i < length xs") (auto simp: nth_list_update)


lemma controllers_step:
  "length (controllers s) \<le> length (controllers (step e s))
   \<and> (\<forall>k. signal_aborted s k \<longrightarrow> signal_aborted (step e s) k)"
proof (cases e)
  case (Refresh p c)
  then show ?thesis
    by (auto simp: refresh_fields signal_aborted_def abort_keeps split: option.splits)
next
  case (SetEnabled b)
  then show ?thesis by (simp add: signal_aborted_def)
next
  case MainEffect
  show ?thesis
  proof (cases "mainEffect s")
    case (Inl err)
    with MainEffect show ?thesis by simp
  next
    case (Inr s')
    have "length (controllers s) \<le> length (controllers s')
          \<and> (\<forall>k. signal_aborted s k \<longrightarrow> signal_aborted s' k)"
    proof (cases "isRunning s")
      case False
      from mainEffect_paused [OF False] Inr show ?thesis
        by (auto simp: signal_aborted_def abort_keeps split: option.splits)
    next
      case True
      show ?thesis
      proof (cases "providerRef s")
        case None
        from mainEffect_no_provider [OF True None] Inr show ?thesis
          by (auto simp: signal_aborted_def)
      next
        case (Some p)
        note prov = this
        show ?thesis
        proof (cases "abortControllerRef s")
          case None
          from mainEffect_fresh [OF True prov None] Inr show ?thesis
            by (auto simp: signal_aborted_def nth_append)
        next
          case (Some i)
          from mainEffect_reuse [OF True prov Some] Inr show ?thesis
            by (auto simp: signal_aborted_def split: if_splits)
        qed
      qed
    qed
    with MainEffect Inr show ?thesis by simp
  qed
next
  case (Settle i r)
  show ?thesis
  proof (cases "i < length (started s)")
    case False
    with Settle show ?thesis by simp
  next
    case True
    show ?thesis
    proof (cases "settle (started s ! i) r s")
      case (Inl err)
      with Settle True show ?thesis by simp
    next
      case (Inr s')
      from settle_fields [OF Inr] Settle True Inr show ?thesis by (simp add: signal_aborted_def)
    qed
  qed
next
  case Unmount
  then show ?thesis
    by (auto simp: cleanup_fields signal_aborted_def abort_keeps split: option.splits)
qed





lemma settle_live:
  assumes "\<not> signal_aborted s (thisSignal a)" "providerRef s = Some (thisProvider a)"
  shows "settle a (Inr inst) s = Inr (s\<lparr>st_instance := Some inst, st_error := None, st_status := Ready\<rparr>)"
    and "settle a (Inl err) s = Inr (s\<lparr>st_instance := None, st_error := Some err, st_status := ErrorState\<rparr>)"
  using assms by (simp_all add: settle_def onFulfilled_def onRejected_def)

lemma refresh_kills:
  assumes "hook_inv s" "a \<in> set (started (refresh p c s))"
  shows "signal_aborted (refresh p c s) (thisSignal a)"
proof (cases "abortControllerRef s")
  case None
  with assms show ?thesis
    using no_current_all_aborted [OF assms(1) None, of a]
    by (simp add: refresh_fields signal_aborted_def)
next
  case (Some i)
  with assms show ?thesis
    using abort_current_kills_all [OF assms(1) Some, of a]
    by (simp add: refresh_fields signal_aborted_def)
qed

lemma mainEffect_refs:
  assumes "mainEffect s = Inr s'"
  shows "providerRef s' = providerRef s \<and> chainIdRef s' = chainIdRef s"
proof (cases "isRunning s")
  case False
  with assms show ?thesis
    by (auto simp: mainEffect_def abort_def split: option.splits)
next
  case True
  show ?thesis
  proof (cases "providerRef s")
    case None
    from mainEffect_no_provider [OF True None] assms show ?thesis by auto
  next
    case (Some p)
    note prov = this
    show ?thesis
    proof (cases "abortControllerRef s")
      case None
      from mainEffect_fresh [OF True prov None] assms show ?thesis by auto
    next
      case (Some i)
      from mainEffect_reuse [OF True prov Some] assms show ?thesis
        by (auto split: if_splits)
    qed
  qed
qed

lemma settle_chain:
  assumes "settle a r s = Inr s'"
  shows "chainIdRef s' = chainIdRef s"
proof -
  have f: "onFulfilled a inst s = Inr s' \<Longrightarrow> ?thesis" for inst
    by (auto simp: onFulfilled_def split: if_splits)
  have g: "onRejected a err s = Inr s' \<Longrightarrow> ?thesis" for err
    by (auto simp: onRejected_def split: if_splits)
  from assms f g show ?thesis
    by (auto simp: settle_def split: sum.splits)
qed

lemma step_refs:
  assumes "\<not> is_refresh e"
  shows "providerRef (step e s) = providerRef s \<and> chainIdRef (step e s) = chainIdRef s"
proof (cases e)
  case (Refresh p c)
  with assms show ?thesis by simp
next
  case (SetEnabled b)
  then show ?thesis by simp
next
  case MainEffect
  then show ?thesis
    by (cases "mainEffect s") (simp_all add: mainEffect_refs)
next
  case (Settle i r)
  show ?thesis
  proof (cases "i < length (started s)")
    case False
    with Settle show ?thesis by simp
  next
    case True
    show ?thesis
    proof (cases "settle (started s ! i) r s")
      case (Inl err)
      with Settle True show ?thesis by simp
    next
      case (Inr s')
      from settle_fields [OF Inr] settle_chain [OF Inr] Settle True Inr show ?thesis by simp
    qed
  qed
next
  case Unmount
  then show ?thesis by (simp add: cleanup_fields cleanup_def abort_def split: option.splits)
qed


lemma step_started_new:
  assumes "a \<in> set (started (step e s))"
  shows "a \<in> set (started s) \<or> thisChainId a = chainIdRef s"
proof (cases e)
  case (Refresh p c)
  with assms show ?thesis by (simp add: refresh_fields)
next
  case (SetEnabled b)
  with assms show ?thesis by simp
next
  case MainEffect
  show ?thesis
  proof (cases "mainEffect s")
    case (Inl err)
    with MainEffect assms show ?thesis by simp
  next
    case (Inr s')
    with MainEffect assms have a: "a \<in> set (started s')" by simp
    show ?thesis
    proof (cases "isRunning s")
      case False
      from mainEffect_paused [OF False] Inr a show ?thesis by auto
    next
      case True
      show ?thesis
      proof (cases "providerRef s")
        case None
        from mainEffect_no_provider [OF True None] Inr a show ?thesis by auto
      next
        case (Some p)
        note prov = this
        show ?thesis
        proof (cases "abortControllerRef s")
          case None
          from mainEffect_fresh [OF True prov None] Inr a show ?thesis by auto
        next
          case (Some i)
          from mainEffect_reuse [OF True prov Some] Inr a show ?thesis
            by (auto split: if_splits)
        qed
      qed
    qed
  qed
next
  case (Settle i r)
  show ?thesis
  proof (cases "i < length (started s)")
    case False
    with Settle assms show ?thesis by simp
  next
    case True
    show ?thesis
    proof (cases "settle (started s ! i) r s")
      case (Inl err)
      with Settle True assms show ?thesis by simp
    next
      case (Inr s')
      from settle_fields [OF Inr] Settle True Inr assms show ?thesis by simp
    qed
  qed
next
  case Unmount
  with assms show ?thesis by (simp add: cleanup_fields)
qed

lemma reachable_chain:
  "reachable s \<Longrightarrow>
     \<forall>a \<in> set (started s). \<not> signal_aborted s (thisSignal a) \<longrightarrow> chainIdRef s = thisChainId a"
proof (induction rule: reachable.induct)
  case (mounted p c mocks enabled)
  show ?case by (simp add: mount_def)
next
  case (stepped s e)
  show ?case
  proof (intro ballI impI)
    fix a
    assume a: "a \<in> set (started (step e s))"
       and live: "\<not> signal_aborted (step e s) (thisSignal a)"
    show "chainIdRef (step e s) = thisChainId a"
    proof (cases "is_refresh e")
      case True
      then obtain p c where e: "e = Refresh p c" by (cases e) simp_all
      from stepped.hyps have "hook_inv s" by (rule reachable_inv)
      from refresh_kills [OF this, of a p c] a live e show ?thesis by simp
    next
      case False
      from step_refs [OF False, of s] have c: "chainIdRef (step e s) = chainIdRef s" by simp
      from live controllers_step [of s e] have l: "\<not> signal_aborted s (thisSignal a)" by blast
      from step_started_new [OF a] show ?thesis
      proof
        assume "a \<in> set (started s)"
        with stepped.IH l c show ?thesis by simp
      next
        assume "thisChainId a = chainIdRef s"
        with c show ?thesis by simp
      qed
    qed
  qed
qed


lemma live_call:
  assumes "reachable s" "a \<in> set (started s)" "\<not> signal_aborted s (thisSignal a)"
  shows "providerRef s = Some (thisProvider a)" "chainIdRef s = thisChainId a"
proof -
  from assms(1) have "hook_inv s" by (rule reachable_inv)
  with assms(2,3) show "providerRef s = Some (thisProvider a)" by (simp add: hook_inv_def)
  from reachable_chain [OF assms(1)] assms(2,3) show "chainIdRef s = thisChainId a" by blast
qed






lemma loading_state_eq:
  "loading_state =
     \<lparr>st_instance = None, st_status = Loading, st_error = None, isRunning = True,
      providerChanged = 0, abortControllerRef = Some 0,
      providerRef = Some (RpcUrl ''http://node''), chainIdRef = None,
      mockChainsRef = None, controllers = [False], started = [sample_attempt]\<rparr>"
  by (simp add: loading_state_def mount_def mainEffect_def signal_aborted_def sample_attempt_def)

text \<open>
  Claim C3. In every state the hook can reach, a started call whose signal is not aborted
  carries the provider and the chain id that the refs hold now. When it resolves, its
  instance is published, the error is cleared and the status becomes \<open>Ready\<close>; nothing
  is thrown. The other branch of the check, a call that is not aborted but no longer
  current, is never taken, so no result is dropped there, no error is raised and no
  state changes: \<^verbatim>\<open>refresh\<close> aborts the running controller before it writes the refs.
\<close>

theorem fulfilled_while_live:
  assumes reach: "reachable s"
      and call: "a \<in> set (started s)"
      and live: "\<not> signal_aborted s (thisSignal a)"
  shows "providerRef s = Some (thisProvider a) \<and> chainIdRef s = thisChainId a
       \<and> settle a (Inr inst) s
           = Inr (s\<lparr>st_instance := Some inst, st_error := None, st_status := Ready\<rparr>)
       \<and> (\<forall>i. i < length (started s) \<and> started s ! i = a
              \<longrightarrow> observable (step (Settle i (Inr inst)) s) = (Some inst, Ready, None))"
proof -
  note l = live_call [OF reach call live]
  from settle_live(1) [OF live l(1), of inst]
  have p: "settle a (Inr inst) s
             = Inr (s\<lparr>st_instance := Some inst, st_error := None, st_status := Ready\<rparr>)" .
  then have "\<forall>i. i < length (started s) \<and> started s ! i = a
              \<longrightarrow> observable (step (Settle i (Inr inst)) s) = (Some inst, Ready, None)"
    by (simp add: observable_def)
  with l p show ?thesis by simp
qed

theorem fulfilled_while_live_witness:
  "reachable loading_state \<and> sample_attempt \<in> set (started loading_state)
   \<and> \<not> signal_aborted loading_state (thisSignal sample_attempt)
   \<and> providerRef loading_state = Some (thisProvider sample_attempt)
   \<and> chainIdRef loading_state = thisChainId sample_attempt
   \<and> settle sample_attempt (Inr (sample_facade None)) loading_state
       = Inr (loading_state\<lparr>st_instance := Some (sample_facade None), st_error := None,
                             st_status := Ready\<rparr>)
   \<and> observable (step (Settle 0 (Inr (sample_facade None))) loading_state)
       = (Some (sample_facade None), Ready, None)"
proof -
  have r: "reachable loading_state"
    unfolding loading_state_def by (rule stepped, rule mounted)
  have m: "sample_attempt \<in> set (started loading_state)"
    by (simp add: loading_state_eq)
  have l: "\<not> signal_aborted loading_state (thisSignal sample_attempt)"
    by (simp add: loading_state_eq sample_attempt_def signal_aborted_def)
  have i: "0 < length (started loading_state) \<and> started loading_state ! 0 = sample_attempt"
    by (simp add: loading_state_eq)
  note t = fulfilled_while_live [OF r m l, of "sample_facade None"]
  from t i have o: "observable (step (Settle 0 (Inr (sample_facade None))) loading_state)
       = (Some (sample_facade None), Ready, None)" by blast
  from r m l t o show ?thesis by blast
qed

text \<open>
  What the check itself would do: with \<open>providerRef\<close> forced apart from the provider of a
  call that is not aborted, \<^verbatim>\<open>_assert\<close> throws. No operation of the hook leads there.
\<close>

lemma forced_mismatch_asserts:
  "\<not> signal_aborted drifted_state (thisSignal sample_attempt)
   \<and> providerRef drifted_state \<noteq> Some (thisProvider sample_attempt)
   \<and> settle sample_attempt (Inr (sample_facade None)) drifted_state
       = Inl (assertionError ''Provider should not have changed during creation'')
   \<and> settle sample_attempt (Inr (sample_facade None)) drifted_state \<noteq> Inr drifted_state"
  by (simp add: drifted_state_def loading_state_eq sample_attempt_def signal_aborted_def
        settle_def onFulfilled_def onRejected_def)

lemma drifted_state_unreachable: "\<not> reachable drifted_state"
proof
  assume "reachable drifted_state"
  then have "hook_inv drifted_state" by (rule reachable_inv)
  then show False
    by (simp add: hook_inv_def drifted_state_def loading_state_eq sample_attempt_def
          signal_aborted_def)
qed

end
